theory Spec2Isabelle
  imports Main "HOL-Library.Word"
begin

unbundle bit_operations_syntax

section \<open>Data model\<close>

text \<open>
  A \<open>Uint8Array\<close> is a list of bytes. A JavaScript string is a list of UTF-16 code
  units. \<open>js\<close> turns an ASCII literal into such a string.
\<close>

type_synonym bytes = "8 word list"
type_synonym jsstring = "16 word list"

definition js :: "string \<Rightarrow> jsstring" where
  "js s = map (\<lambda>c. of_nat (of_char c)) s"

text \<open>
  The numbers the encoder's arithmetic meets: the result of \<open>parseInt\<close> is \<open>NaN\<close>, an
  infinity, or an integer-valued double, held here as the integer it denotes.
\<close>

datatype jsnum = NaN | PosInf | NegInf | Num int

text \<open>
  \<open>ToInt32\<close> of ECMAScript, applied by \<open>&\<close> and \<open>>>\<close> to their left operand: \<open>NaN\<close> and
  the infinities become 0, a finite integer is taken modulo \<open>2^32\<close>.
\<close>

fun ToInt32 :: "jsnum \<Rightarrow> 32 word" where
  "ToInt32 (Num n) = word_of_int n"
| "ToInt32 _ = 0"

text \<open>
  Storing an int32 into a \<open>Uint8Array\<close> element keeps its low 8 bits (\<open>ToUint8\<close>).
\<close>

definition ToUint8 :: "32 word \<Rightarrow> 8 word" where
  "ToUint8 v = ucast v"

section \<open>airdrop-signature.js: encodeU64\<close>

text \<open>
  \<^verbatim>\<open>
  function encodeU64(num) {
    const bytes = new Uint8Array(8);
    bytes[0] = num & 0xFF;
    bytes[1] = (num >> 8) & 0xFF;
    bytes[2] = (num >> 16) & 0xFF;
    bytes[3] = (num >> 24) & 0xFF;
    bytes[4] = 0; bytes[5] = 0; bytes[6] = 0; bytes[7] = 0;
    return bytes;
  }
  \<close>
  \<open>>>\<close> is the sign-propagating shift on the int32 value of its operand.
\<close>

definition encodeU64 :: "jsnum \<Rightarrow> bytes" where
  "encodeU64 num =
     (let bytes = replicate 8 (0 :: 8 word);
          bytes = bytes[0 := ToUint8 (ToInt32 num AND 0xFF)];
          bytes = bytes[1 := ToUint8 (signed_drop_bit 8 (ToInt32 num) AND 0xFF)];
          bytes = bytes[2 := ToUint8 (signed_drop_bit 16 (ToInt32 num) AND 0xFF)];
          bytes = bytes[3 := ToUint8 (signed_drop_bit 24 (ToInt32 num) AND 0xFF)];
          bytes = bytes[4 := 0];
          bytes = bytes[5 := 0];
          bytes = bytes[6 := 0];
          bytes = bytes[7 := 0]
      in bytes)"

text \<open>Reading a byte sequence as a little-endian integer.\<close>

fun le_value :: "bytes \<Rightarrow> nat" where
  "le_value [] = 0"
| "le_value (b # bs) = unat b + 256 * le_value bs"


section \<open>Strings: the built-ins the encoder calls\<close>

definition isStrWhiteSpaceChar :: "16 word \<Rightarrow> bool" where
  "isStrWhiteSpaceChar c \<longleftrightarrow>
     c \<in> set [0x9, 0xA, 0xB, 0xC, 0xD, 0x20, 0xA0, 0x1680, 0x2028, 0x2029,
               0x202F, 0x205F, 0x3000, 0xFEFF]
     \<or> (0x2000 \<le> c \<and> c \<le> 0x200A)"

definition isDecimalDigit :: "16 word \<Rightarrow> bool" where
  "isDecimalDigit c \<longleftrightarrow> 0x30 \<le> c \<and> c \<le> 0x39"

text \<open>The value of a digit or letter as a digit in some radix up to 16, if it has one.\<close>

definition hexDigitValue :: "16 word \<Rightarrow> nat option" where
  "hexDigitValue c =
     (if 0x30 \<le> c \<and> c \<le> 0x39 then Some (unat c - 48)
      else if 0x61 \<le> c \<and> c \<le> 0x66 then Some (unat c - 87)
      else if 0x41 \<le> c \<and> c \<le> 0x46 then Some (unat c - 55)
      else None)"

definition isRadixDigit :: "nat \<Rightarrow> 16 word \<Rightarrow> bool" where
  "isRadixDigit R c \<longleftrightarrow> (case hexDigitValue c of Some d \<Rightarrow> d < R | None \<Rightarrow> False)"

definition radixDigitValue :: "16 word \<Rightarrow> nat" where
  "radixDigitValue c = (case hexDigitValue c of Some d \<Rightarrow> d | None \<Rightarrow> 0)"

definition radixValue :: "nat \<Rightarrow> jsstring \<Rightarrow> nat" where
  "radixValue R Z = foldl (\<lambda>acc c. acc * R + radixDigitValue c) 0 Z"

definition TrimString :: "jsstring \<Rightarrow> jsstring" where
  "TrimString s = rev (dropWhile isStrWhiteSpaceChar (rev (dropWhile isStrWhiteSpaceChar s)))"

definition stripSign :: "jsstring \<Rightarrow> jsstring" where
  "stripSign s = (case s of [] \<Rightarrow> [] | c # cs \<Rightarrow> if c = 0x2B \<or> c = 0x2D then cs else s)"

subsection \<open>\<open>isNaN\<close> on a string: the grammar of \<open>StringToNumber\<close>\<close>

text \<open>
  \<open>isNaN(x)\<close> converts \<open>x\<close> to a number first. A string converts to \<open>NaN\<close> exactly when,
  with white space trimmed at both ends, it is neither empty nor a \<open>StrNumericLiteral\<close>
  of ECMAScript: a signed decimal literal (digits with an optional fraction and exponent,
  or \<open>Infinity\<close>), or an unsigned binary, octal or hexadecimal integer literal.
\<close>

definition isExponentPartOpt :: "jsstring \<Rightarrow> bool" where
  "isExponentPartOpt r \<longleftrightarrow>
     (case r of
        [] \<Rightarrow> True
      | e # r' \<Rightarrow> (e = 0x65 \<or> e = 0x45) \<and> stripSign r' \<noteq> [] \<and> list_all isDecimalDigit (stripSign r'))"

definition isStrUnsignedDecimalLiteral :: "jsstring \<Rightarrow> bool" where
  "isStrUnsignedDecimalLiteral u \<longleftrightarrow>
     u = js ''Infinity'' \<or>
     (let ip = takeWhile isDecimalDigit u; r1 = dropWhile isDecimalDigit u
      in case r1 of
           [] \<Rightarrow> ip \<noteq> []
         | c # r2 \<Rightarrow>
             if c = 0x2E
             then (let fp = takeWhile isDecimalDigit r2; r3 = dropWhile isDecimalDigit r2
                   in (ip \<noteq> [] \<or> fp \<noteq> []) \<and> isExponentPartOpt r3)
             else ip \<noteq> [] \<and> isExponentPartOpt r1)"

definition isStrDecimalLiteral :: "jsstring \<Rightarrow> bool" where
  "isStrDecimalLiteral t \<longleftrightarrow> isStrUnsignedDecimalLiteral (stripSign t)"

definition isNonDecimalIntegerLiteral :: "jsstring \<Rightarrow> bool" where
  "isNonDecimalIntegerLiteral t \<longleftrightarrow>
     (case t of
        z # x # ds \<Rightarrow>
          z = 0x30 \<and> ds \<noteq> [] \<and>
          ((x = 0x62 \<or> x = 0x42) \<and> list_all (isRadixDigit 2) ds
           \<or> (x = 0x6F \<or> x = 0x4F) \<and> list_all (isRadixDigit 8) ds
           \<or> (x = 0x78 \<or> x = 0x58) \<and> list_all (isRadixDigit 16) ds)
      | _ \<Rightarrow> False)"

definition StringToNumber_isNaN :: "jsstring \<Rightarrow> bool" where
  "StringToNumber_isNaN s \<longleftrightarrow>
     (let t = TrimString s
      in \<not> (t = [] \<or> isStrDecimalLiteral t \<or> isNonDecimalIntegerLiteral t))"

subsection \<open>\<open>parseInt\<close>\<close>

text \<open>
  The Number value of a mathematical integer: exact below \<open>2^53\<close>, otherwise rounded to
  53 significant bits, ties to even, and infinite from \<open>2^1024\<close> on.
\<close>

fun bitLength :: "nat \<Rightarrow> nat" where
  "bitLength n = (if n = 0 then 0 else Suc (bitLength (n div 2)))"

definition roundToDouble :: "nat \<Rightarrow> nat option" where
  "roundToDouble m =
     (if m < 2 ^ 53 then Some m
      else let e = bitLength m - 53;
               q = m div 2 ^ e;
               rest = m mod 2 ^ e;
               half = 2 ^ (e - 1);
               q' = (if rest > half \<or> (rest = half \<and> odd q) then q + 1 else q);
               v = q' * 2 ^ e
           in if v < 2 ^ 1024 then Some v else None)"

definition numberOfInt :: "int \<Rightarrow> jsnum" where
  "numberOfInt i =
     (case roundToDouble (nat \<bar>i\<bar>) of
        Some v \<Rightarrow> Num (if i < 0 then - int v else int v)
      | None \<Rightarrow> if i < 0 then NegInf else PosInf)"

text \<open>
  \<open>parseInt(string)\<close> with no radix: leading white space and one sign are skipped, a
  \<open>0x\<close> or \<open>0X\<close> prefix selects radix 16, and the longest prefix of digits is the
  value; with no digit the result is \<open>NaN\<close>. Whatever follows the digits is ignored.
\<close>

definition parseInt :: "jsstring \<Rightarrow> jsnum" where
  "parseInt inputString =
     (let S = dropWhile isStrWhiteSpaceChar inputString;
          sign = (if S \<noteq> [] \<and> hd S = 0x2D then - 1 else 1 :: int);
          S = (if S \<noteq> [] \<and> (hd S = 0x2B \<or> hd S = 0x2D) then tl S else S);
          hex = (2 \<le> length S \<and> (take 2 S = js ''0x'' \<or> take 2 S = js ''0X''));
          R = (if hex then 16 else 10);
          S = (if hex then drop 2 S else S);
          Z = takeWhile (isRadixDigit R) S
      in if Z = [] then NaN else numberOfInt (sign * int (radixValue R Z)))"

subsection \<open>Number to string\<close>

text \<open>
  \<open>Number.prototype.toString\<close> on a non-negative integer below \<open>2^53\<close>: its decimal
  digits, most significant first. (From \<open>2^53\<close> on the digits written are the shortest
  that read back as the same number, and from \<open>10^21\<close> on they are in exponent form;
  the lengths and the numeric destinations of this development stay below \<open>2^53\<close>.)
\<close>

fun decimalDigits :: "nat \<Rightarrow> jsstring" where
  "decimalDigits n =
     (if n < 10 then [of_nat (48 + n)]
      else decimalDigits (n div 10) @ [of_nat (48 + n mod 10)])"

declare decimalDigits.simps [simp del]

subsection \<open>UTF-8 encoding: \<open>TextEncoder.encode\<close> and \<open>stringToU8a\<close>\<close>

definition isHighSurrogate :: "16 word \<Rightarrow> bool" where
  "isHighSurrogate c \<longleftrightarrow> 0xD800 \<le> c \<and> c \<le> 0xDBFF"

definition isLowSurrogate :: "16 word \<Rightarrow> bool" where
  "isLowSurrogate c \<longleftrightarrow> 0xDC00 \<le> c \<and> c \<le> 0xDFFF"

definition utf8_of_codepoint :: "nat \<Rightarrow> bytes" where
  "utf8_of_codepoint cp =
     (if cp < 0x80 then [of_nat cp]
      else if cp < 0x800 then [of_nat (0xC0 + cp div 64), of_nat (0x80 + cp mod 64)]
      else if cp < 0x10000 then
        [of_nat (0xE0 + cp div 4096), of_nat (0x80 + cp div 64 mod 64), of_nat (0x80 + cp mod 64)]
      else
        [of_nat (0xF0 + cp div 262144), of_nat (0x80 + cp div 4096 mod 64),
         of_nat (0x80 + cp div 64 mod 64), of_nat (0x80 + cp mod 64)])"

text \<open>
  A high surrogate followed by a low one is one code point; a surrogate on its own is
  encoded as U+FFFD.
\<close>

fun utf8_encode :: "jsstring \<Rightarrow> bytes" where
  "utf8_encode [] = []"
| "utf8_encode [c] =
     utf8_of_codepoint (if isHighSurrogate c \<or> isLowSurrogate c then 0xFFFD else unat c)"
| "utf8_encode (c # d # cs) =
     (if isHighSurrogate c \<and> isLowSurrogate d
      then utf8_of_codepoint (0x10000 + (unat c - 0xD800) * 1024 + (unat d - 0xDC00))
             @ utf8_encode cs
      else utf8_of_codepoint (if isHighSurrogate c \<or> isLowSurrogate c then 0xFFFD else unat c)
             @ utf8_encode (d # cs))"

definition stringToU8a :: "jsstring \<Rightarrow> bytes" where
  "stringToU8a v = utf8_encode v"

section \<open>airdrop-signature.js: the destination account\<close>

text \<open>
  The destination passed to \<open>generateClaimSignature\<close> is a number or a string. A number
  argument is an account id such as the 42 of the example: a non-negative safe integer,
  that is one below \<open>2^53\<close>, held as a 53-bit word. On these numbers \<open>isNaN\<close> is false,
  the conversion to a string writes every decimal digit, and \<open>BigInt\<close> gives the same
  integer. Other numbers (negative, fractional, \<open>NaN\<close>, or from \<open>2^53\<close> on) are not
  part of the model; every string is.
\<close>

datatype specifier = SNum "53 word" | SStr jsstring

fun ToString :: "specifier \<Rightarrow> jsstring" where
  "ToString (SNum n) = decimalDigits (unat n)"
| "ToString (SStr s) = s"

fun isNaN :: "specifier \<Rightarrow> bool" where
  "isNaN (SNum n) = False"
| "isNaN (SStr s) = StringToNumber_isNaN s"

datatype error =
    RangeError
  | SyntaxError
  | InvalidBytesLike
  | SignatureNotStringOrBytes
  | InvalidSignatureLength nat
  | External nat

text \<open>
  \<^verbatim>\<open>
  let destAccount;
  if (!isNaN(substrateAddress)) {
    const accountId = parseInt(substrateAddress);
    destAccount = encodeU64(accountId);
  } else {
    try {
      const publicKey = decodeAddress(substrateAddress);
      destAccount = publicKey;
    } catch (error) {
      destAccount = new Uint8Array(new TextEncoder().encode(substrateAddress));
    }
  }
  \<close>
  \<open>decodeAddress\<close> belongs to the keyring library and is a parameter: it returns the
  public key of an address or throws.
\<close>

definition destAccount :: "(jsstring \<Rightarrow> error + bytes) \<Rightarrow> specifier \<Rightarrow> bytes" where
  "destAccount decodeAddress substrateAddress =
     (if \<not> isNaN substrateAddress
      then (let accountId = parseInt (ToString substrateAddress) in encodeU64 accountId)
      else (case decodeAddress (ToString substrateAddress) of
              Inr publicKey \<Rightarrow> publicKey
            | Inl err \<Rightarrow> utf8_encode (ToString substrateAddress)))"

text \<open>
  Which of the three branches assigns \<open>destAccount\<close>. The code reports it on the console:
  \<open>Encoding numeric account ID\<close>, \<open>Decoded substrate address to public key\<close> or
  \<open>Using raw input as account identifier\<close>.
\<close>

datatype tier = NumericTier | AddressTier | RawTextTier

definition destTier :: "(jsstring \<Rightarrow> error + bytes) \<Rightarrow> specifier \<Rightarrow> tier" where
  "destTier decodeAddress substrateAddress =
     (if \<not> isNaN substrateAddress then NumericTier
      else (case decodeAddress (ToString substrateAddress) of
              Inr publicKey \<Rightarrow> AddressTier
            | Inl err \<Rightarrow> RawTextTier))"

text \<open>
  The numeric specifier as the specification words it: a string that parses fully as a
  non-negative integer representable in 64 bits, that is a non-empty string of decimal
  digits whose value is below \<open>2^64\<close>. And an address decoder that accepts no string.
\<close>

definition parsesAsU64 :: "jsstring \<Rightarrow> bool" where
  "parsesAsU64 s \<longleftrightarrow> s \<noteq> [] \<and> list_all isDecimalDigit s \<and> radixValue 10 s < 2 ^ 64"

definition rejectAddress :: "jsstring \<Rightarrow> error + bytes" where
  "rejectAddress s = Inl (External 0)"

section \<open>airdrop-signature.js: toAsciiHex\<close>

text \<open>
  \<^verbatim>\<open>
  function toAsciiHex(data) {
    const result = new Uint8Array(data.length * 2);
    for (let i = 0; i < data.length; i++) {
      const byte = data[i];
      const n1 = byte >> 4;
      result[i * 2] = n1 < 10 ? 48 + n1 : 97 + (n1 - 10);
      const n2 = byte & 0x0F;
      result[i * 2 + 1] = n2 < 10 ? 48 + n2 : 97 + (n2 - 10);
    }
    return result;
  }
  \<close>
  The shift and the mask work on the int32 value of the byte; the sums are sums of
  numbers, and the store keeps the low 8 bits.
\<close>

definition nibbleCode :: "int \<Rightarrow> int" where
  "nibbleCode n = (if n < 10 then 48 + n else 97 + (n - 10))"

function toAsciiHex_loop :: "bytes \<Rightarrow> nat \<Rightarrow> bytes \<Rightarrow> bytes" where
  "toAsciiHex_loop data i result =
     (if i < length data
      then (let byte = ucast (data ! i) :: 32 word;
                n1 = sint (signed_drop_bit 4 byte);
                result = result[i * 2 := word_of_int (nibbleCode n1)];
                n2 = sint (byte AND 0x0F);
                result = result[i * 2 + 1 := word_of_int (nibbleCode n2)]
            in toAsciiHex_loop data (i + 1) result)
      else result)"
  by pat_completeness auto
termination
  by (relation "measure (\<lambda>(data, i, result). length data - i)") auto

declare toAsciiHex_loop.simps [simp del]

definition toAsciiHex :: "bytes \<Rightarrow> bytes" where
  "toAsciiHex data = toAsciiHex_loop data 0 (replicate (length data * 2) 0)"

text \<open>
  A decoder for the hex text, to state the round trip: two characters give one byte;
  anything that is not lowercase hex text of even length has no decoding.
\<close>

definition lowerHexValue :: "8 word \<Rightarrow> nat option" where
  "lowerHexValue c =
     (if 0x30 \<le> c \<and> c \<le> 0x39 then Some (unat c - 48)
      else if 0x61 \<le> c \<and> c \<le> 0x66 then Some (unat c - 87)
      else None)"

fun fromAsciiHex :: "bytes \<Rightarrow> bytes option" where
  "fromAsciiHex [] = Some []"
| "fromAsciiHex [c] = None"
| "fromAsciiHex (a # b # cs) =
     (case (lowerHexValue a, lowerHexValue b, fromAsciiHex cs) of
        (Some h, Some l, Some ds) \<Rightarrow> Some (of_nat (16 * h + l) # ds)
      | _ \<Rightarrow> None)"

text \<open>
  The sixteen lowercase hex digits \<open>0\<close> to \<open>9\<close> and \<open>a\<close> to \<open>f\<close> as ASCII codes, the
  two digits of a byte, high nibble first, and lowercase hex text: an even number of
  such digits.
\<close>

definition lowerHexDigits :: bytes where
  "lowerHexDigits = map (\<lambda>c. of_nat (of_char c)) ''0123456789abcdef''"

definition hexPair :: "8 word \<Rightarrow> bytes" where
  "hexPair b = [lowerHexDigits ! (unat b div 16), lowerHexDigits ! (unat b mod 16)]"

definition isLowerHexText :: "bytes \<Rightarrow> bool" where
  "isLowerHexText x \<longleftrightarrow> even (length x) \<and> list_all (\<lambda>c. c \<in> set lowerHexDigits) x"

section \<open>airdrop-signature.js: createEthereumSignableMessage\<close>

text \<open>
  \<open>TypedArray.prototype.set(source, offset)\<close> copies \<open>source\<close> into the array from
  \<open>offset\<close> on and throws a \<open>RangeError\<close> when it does not fit.
\<close>

definition u8a_set :: "bytes \<Rightarrow> bytes \<Rightarrow> nat \<Rightarrow> error + bytes" where
  "u8a_set target source offset =
     (if offset + length source > length target then Inl RangeError
      else Inr (take offset target @ source @ drop (offset + length source) target))"

definition prefix_text :: jsstring where
  "prefix_text = js ''Pay RUSTs to the TEST account:''"

definition header_text :: jsstring where
  "header_text = js (CHR 0x19 # ''Ethereum Signed Message:'' @ [CHR 0x0A])"

text \<open>
  \<^verbatim>\<open>
  function createEthereumSignableMessage(what, extra = new Uint8Array()) {
    const prefix = stringToU8a("Pay RUSTs to the TEST account:");
    const length = prefix.length + what.length + extra.length;
    const lengthStr = length.toString();
    const lengthBytes = stringToU8a(lengthStr);
    const header = stringToU8a("\x19Ethereum Signed Message:\n");
    const messageBuffer = new Uint8Array(
      header.length + lengthBytes.length + prefix.length + what.length + extra.length);
    let offset = 0;
    messageBuffer.set(header, offset);      offset += header.length;
    messageBuffer.set(lengthBytes, offset); offset += lengthBytes.length;
    messageBuffer.set(prefix, offset);      offset += prefix.length;
    messageBuffer.set(what, offset);        offset += what.length;
    messageBuffer.set(extra, offset);
    return messageBuffer;
  }
  \<close>
  An omitted \<open>extra\<close> is \<open>None\<close>.
\<close>

definition createEthereumSignableMessage :: "bytes \<Rightarrow> bytes option \<Rightarrow> error + bytes" where
  "createEthereumSignableMessage what extra_arg =
     (let extra = (case extra_arg of None \<Rightarrow> [] | Some e \<Rightarrow> e);
          prefix = stringToU8a prefix_text;
          len = length prefix + length what + length extra;
          lengthStr = decimalDigits len;
          lengthBytes = stringToU8a lengthStr;
          header = stringToU8a header_text;
          messageBuffer = replicate (length header + length lengthBytes + length prefix
                                       + length what + length extra) (0 :: 8 word);
          offset = 0
      in case u8a_set messageBuffer header offset of Inl err \<Rightarrow> Inl err | Inr messageBuffer \<Rightarrow>
         let offset = offset + length header
      in case u8a_set messageBuffer lengthBytes offset of Inl err \<Rightarrow> Inl err | Inr messageBuffer \<Rightarrow>
         let offset = offset + length lengthBytes
      in case u8a_set messageBuffer prefix offset of Inl err \<Rightarrow> Inl err | Inr messageBuffer \<Rightarrow>
         let offset = offset + length prefix
      in case u8a_set messageBuffer what offset of Inl err \<Rightarrow> Inl err | Inr messageBuffer \<Rightarrow>
         let offset = offset + length what
      in case u8a_set messageBuffer extra offset of Inl err \<Rightarrow> Inl err | Inr messageBuffer \<Rightarrow>
         Inr messageBuffer)"

text \<open>The value of a sequence of ASCII decimal digits, to state what the length field is.\<close>

definition decimalValue :: "bytes \<Rightarrow> nat" where
  "decimalValue ds = foldl (\<lambda>acc d. acc * 10 + (unat d - 48)) 0 ds"

text \<open>
  The bytes of an ASCII literal, and the ASCII decimal digits \<open>0\<close> to \<open>9\<close>, to state
  what the message holds.
\<close>

definition asciiBytes :: "string \<Rightarrow> bytes" where
  "asciiBytes s = map (\<lambda>c. of_nat (of_char c)) s"

definition isDigitByte :: "8 word \<Rightarrow> bool" where
  "isDigitByte c \<longleftrightarrow> 0x30 \<le> c \<and> c \<le> 0x39"

section \<open>Hex strings of the signing library\<close>

text \<open>
  \<open>ethers.hexlify(data)\<close> is \<open>0x\<close> followed by two lowercase hex digits per byte.
  \<open>ethers.getBytes(value)\<close> accepts a string that matches
  \<^verbatim>\<open>/^0x(?:[0-9a-f][0-9a-f])*$/i\<close>, reads each pair of digits as a byte, and throws on
  any other string.
\<close>

definition HexCharacters :: jsstring where
  "HexCharacters = js ''0123456789abcdef''"

fun hexlify_digits :: "bytes \<Rightarrow> jsstring" where
  "hexlify_digits [] = []"
| "hexlify_digits (v # vs) =
     HexCharacters ! unat (drop_bit 4 (v AND 0xF0)) # HexCharacters ! unat (v AND 0x0F)
       # hexlify_digits vs"

definition hexlify :: "bytes \<Rightarrow> jsstring" where
  "hexlify data = js ''0x'' @ hexlify_digits data"

fun hexPairs :: "jsstring \<Rightarrow> bytes" where
  "hexPairs (a # b # cs) = of_nat (16 * radixDigitValue a + radixDigitValue b) # hexPairs cs"
| "hexPairs _ = []"

definition getBytes :: "jsstring \<Rightarrow> error + bytes" where
  "getBytes v =
     (case v of
        z # x # ds \<Rightarrow>
          if z = 0x30 \<and> (x = 0x78 \<or> x = 0x58) \<and> even (length ds) \<and> list_all (isRadixDigit 16) ds
          then Inr (hexPairs ds) else Inl InvalidBytesLike
      | _ \<Rightarrow> Inl InvalidBytesLike)"

section \<open>Runs: what a call does, and how it ends\<close>

text \<open>
  An asynchronous function returns, throws, or never settles. A run is the list of the
  calls it made to the outside, in order, and its outcome.
\<close>

datatype 'a outcome = Returned 'a | Threw error | Pending

type_synonym ('e, 'a) run = "'e list \<times> 'a outcome"

definition ret :: "'a \<Rightarrow> ('e, 'a) run" where
  "ret a = ([], Returned a)"

definition step :: "error + 'a \<Rightarrow> ('e, 'a) run" where
  "step r = ([], case r of Inl err \<Rightarrow> Threw err | Inr a \<Rightarrow> Returned a)"

definition call :: "'e \<Rightarrow> error + 'a \<Rightarrow> ('e, 'a) run" where
  "call ev r = ([ev], case r of Inl err \<Rightarrow> Threw err | Inr a \<Rightarrow> Returned a)"

definition await :: "'e \<Rightarrow> 'a outcome \<Rightarrow> ('e, 'a) run" where
  "await ev oc = ([ev], oc)"

definition bind_run :: "('e, 'a) run \<Rightarrow> ('a \<Rightarrow> ('e, 'b) run) \<Rightarrow> ('e, 'b) run" where
  "bind_run m f =
     (case m of
        (evs, Returned a) \<Rightarrow> (case f a of (evs', oc) \<Rightarrow> (evs @ evs', oc))
      | (evs, Threw err) \<Rightarrow> (evs, Threw err)
      | (evs, Pending) \<Rightarrow> (evs, Pending))"


section \<open>airdrop-signature.js: generateClaimSignature\<close>

record wallet =
  address :: jsstring
  privateKey :: jsstring

record ecdsa_signature =
  sig_r :: jsstring
  sig_s :: jsstring
  sig_v :: int

record claim_signature =
  signature :: jsstring
  ethereumAddress :: jsstring

text \<open>
  What \<open>generateClaimSignature\<close> calls outside the repository: the wallet constructor
  (it throws on a key it does not accept), the connection to the chain (awaited; it
  settles or not as the network decides, and what it gives, the \<open>api\<close> object of type
  \<open>'api\<close>, is whatever the node reports), the address decoder, the Keccak-256 digest of
  \<open>ethers.keccak256\<close>, and the signing key with its \<open>sign\<close>. The calls into the signing
  and keyring libraries are functions of their arguments; \<open>sign\<close> of ethers takes its
  nonce from the key and the digest (RFC 6979) and no randomness.
\<close>

record 'api libraries =
  Wallet :: "jsstring \<Rightarrow> error + wallet"
  ApiPromise_create :: "'api outcome"
  decodeAddress :: "jsstring \<Rightarrow> error + bytes"
  keccak256 :: "bytes \<Rightarrow> bytes"
  SigningKey :: "jsstring \<Rightarrow> error + jsstring"
  sign :: "jsstring \<Rightarrow> bytes \<Rightarrow> error + ecdsa_signature"

datatype event =
    WalletCreated jsstring
  | ApiConnect
  | Keccak256 bytes
  | SigningKeyCreated jsstring
  | Signed jsstring bytes

text \<open>
  The messages that a run hashed, and the signing keys and digests it had signed, in
  order.
\<close>

fun hashCalls :: "event list \<Rightarrow> bytes list" where
  "hashCalls [] = []"
| "hashCalls (Keccak256 m # evs) = m # hashCalls evs"
| "hashCalls (ev # evs) = hashCalls evs"

fun signCalls :: "event list \<Rightarrow> (jsstring \<times> bytes) list" where
  "signCalls [] = []"
| "signCalls (Signed sk d # evs) = (sk, d) # signCalls evs"
| "signCalls (ev # evs) = signCalls evs"


text \<open>
  \<^verbatim>\<open>
  const signatureBytes = new Uint8Array(65);
  const rBytes = ethers.getBytes(signature.r);
  signatureBytes.set(rBytes, 0);
  const sBytes = ethers.getBytes(signature.s);
  signatureBytes.set(sBytes, 32);
  signatureBytes[64] = signature.v === 27 ? 0 : 1;
  \<close>
\<close>

definition signatureBytes_of :: "ecdsa_signature \<Rightarrow> error + bytes" where
  "signatureBytes_of sg =
     (let signatureBytes = replicate 65 (0 :: 8 word)
      in case getBytes (sig_r sg) of Inl err \<Rightarrow> Inl err | Inr rBytes \<Rightarrow>
         case u8a_set signatureBytes rBytes 0 of Inl err \<Rightarrow> Inl err | Inr signatureBytes \<Rightarrow>
         case getBytes (sig_s sg) of Inl err \<Rightarrow> Inl err | Inr sBytes \<Rightarrow>
         case u8a_set signatureBytes sBytes 32 of Inl err \<Rightarrow> Inl err | Inr signatureBytes \<Rightarrow>
         Inr (signatureBytes[64 := (if sig_v sg = 27 then 0 else 1)]))"

text \<open>
  \<^verbatim>\<open>
  async function generateClaimSignature(ethereumPrivateKey, substrateAddress) {
    const wallet = new ethers.Wallet(ethereumPrivateKey);
    const ethereumAddress = wallet.address;
    const api = await ApiPromise.create({ provider: new WsProvider('wss://rpc.polkadot.io') });
    let destAccount; ...
    const accountHexEncoded = toAsciiHex(destAccount);
    const message = createEthereumSignableMessage(accountHexEncoded);
    const messageHash = ethers.keccak256(message);
    console.log(`messageHash: ${ethers.getBytes(messageHash)}`);
    const signingKey = new ethers.SigningKey(wallet.privateKey);
    const messageHashBytes = ethers.getBytes(messageHash);
    const signature = signingKey.sign(messageHashBytes);
    ...
    const formattedSignature = ethers.hexlify(signatureBytes);
    return { signature: `${formattedSignature}`, ethereumAddress };
  }
  \<close>
  The lines that only write to the console are left out, except the one that calls
  \<open>getBytes\<close>, which may throw.
\<close>

definition generateClaimSignature ::
  "'api libraries \<Rightarrow> jsstring \<Rightarrow> specifier \<Rightarrow> (event, claim_signature) run" where
  "generateClaimSignature L ethereumPrivateKey substrateAddress =
     bind_run (call (WalletCreated ethereumPrivateKey) (Wallet L ethereumPrivateKey)) (\<lambda>wallet.
     bind_run (await ApiConnect (ApiPromise_create L)) (\<lambda>api.
     let account = destAccount (decodeAddress L) substrateAddress;
         accountHexEncoded = toAsciiHex account
     in
     bind_run (step (createEthereumSignableMessage accountHexEncoded None)) (\<lambda>message.
     bind_run (call (Keccak256 message) (Inr (hexlify (keccak256 L message)))) (\<lambda>messageHash.
     bind_run (step (getBytes messageHash)) (\<lambda>logged.
     bind_run (call (SigningKeyCreated (privateKey wallet)) (SigningKey L (privateKey wallet)))
       (\<lambda>signingKey.
     bind_run (step (getBytes messageHash)) (\<lambda>messageHashBytes.
     bind_run (call (Signed signingKey messageHashBytes) (sign L signingKey messageHashBytes))
       (\<lambda>sg.
     bind_run (step (signatureBytes_of sg)) (\<lambda>signatureBytes.
     let formattedSignature = hexlify signatureBytes
     in ret \<lparr>signature = formattedSignature, ethereumAddress = address wallet\<rparr>)))))))))"

text \<open>
  The message that is signed for an account: preamble, length field, prefix and the hex
  text of the account.
\<close>

definition claimMessage :: "bytes \<Rightarrow> bytes" where
  "claimMessage account =
     stringToU8a header_text @ stringToU8a (decimalDigits (30 + 2 * length account))
       @ stringToU8a prefix_text @ toAsciiHex account"

section \<open>airdrop-claim.js: submitSignature\<close>

text \<open>
  \<open>Buffer.from(text, 'hex')\<close> of Node decodes two characters at a time and stops at the
  first pair that is not two hex digits; a last single character is dropped. Of each
  UTF-16 code unit only the low byte is looked at (the decoder casts the unit to
  \<open>uint8_t\<close>), so that U+0130 reads as the digit \<open>0\<close>.
\<close>

definition lowByte :: "16 word \<Rightarrow> 16 word" where
  "lowByte c = c AND 0xFF"

fun hex_decode :: "jsstring \<Rightarrow> bytes" where
  "hex_decode (a # b # cs) =
     (if isRadixDigit 16 (lowByte a) \<and> isRadixDigit 16 (lowByte b)
      then of_nat (16 * radixDigitValue (lowByte a) + radixDigitValue (lowByte b)) # hex_decode cs
      else [])"
| "hex_decode _ = []"

text \<open>
  \<open>BigInt(value)\<close>: a safe integer is that integer; a string is trimmed and
  read as a signed decimal or an unsigned binary, octal or hexadecimal integer literal,
  an empty one being 0, and any other string throws a \<open>SyntaxError\<close>.
\<close>

definition StringToBigInt :: "jsstring \<Rightarrow> error + int" where
  "StringToBigInt s =
     (let t = TrimString s
      in if t = [] then Inr 0
         else if isNonDecimalIntegerLiteral t then
           Inr (int (radixValue
                  (if t ! 1 = 0x62 \<or> t ! 1 = 0x42 then 2
                   else if t ! 1 = 0x6F \<or> t ! 1 = 0x4F then 8 else 16)
                  (drop 2 t)))
         else if stripSign t \<noteq> [] \<and> list_all isDecimalDigit (stripSign t) then
           Inr ((if hd t = 0x2D then - 1 else 1) * int (radixValue 10 (stripSign t)))
         else Inl SyntaxError)"

fun BigInt :: "specifier \<Rightarrow> error + int" where
  "BigInt (SNum n) = Inr (uint n)"
| "BigInt (SStr s) = StringToBigInt s"

datatype signature_arg = SigString jsstring | SigBytes bytes | SigOther

text \<open>
  \<^verbatim>\<open>
  const accountBytes = new Uint8Array(32);
  let n = destAccountBigInt;
  for (let i = 0; i < 8; i++) {
    accountBytes[i] = Number(n & BigInt(255));
    n >>= BigInt(8);
  }
  \<close>
\<close>

function accountBytes_loop :: "nat \<Rightarrow> int \<Rightarrow> bytes \<Rightarrow> bytes" where
  "accountBytes_loop i n accountBytes =
     (if i < 8
      then accountBytes_loop (i + 1) (drop_bit 8 n) (accountBytes[i := word_of_int (n AND 255)])
      else accountBytes)"
  by pat_completeness auto
termination
  by (relation "measure (\<lambda>(i, n, accountBytes). 8 - i)") auto

text \<open>
  What \<open>submitSignature\<close> calls outside the repository: the keyring's address encoder,
  the submission of the unsigned \<open>airdrop.claim\<close> transaction (awaited, giving the hash
  as hex text), the wait for finality and the balance query.
\<close>

record chain =
  encodeAddress :: "bytes \<Rightarrow> error + jsstring"
  claim_send :: "bytes \<Rightarrow> bytes \<Rightarrow> jsstring outcome"
  waitFinalized :: "jsstring \<Rightarrow> unit outcome"
  query_account :: "bytes \<Rightarrow> jsstring outcome"

datatype chain_event =
    AddressEncoded bytes
  | ClaimSent bytes bytes
  | FinalityAwaited jsstring
  | AccountQueried bytes

text \<open>
  \<^verbatim>\<open>
  async function submitSignature(api, walletAddress, destAccount, signature) {
    try {
      let signatureBytes;
      if (typeof signature === 'string') {
        const cleanSig = signature.startsWith('0x') ? signature.slice(2) : signature;
        signatureBytes = new Uint8Array(Buffer.from(cleanSig, 'hex'));
      } else if (signature instanceof Uint8Array) {
        signatureBytes = signature;
      } else {
        throw new Error('Signature must be a hex string or Uint8Array');
      }
      if (signatureBytes.length !== 65) {
        throw new Error(`Invalid signature length: ${signatureBytes.length} bytes. Expected 65 bytes.`);
      }
      const destAccountBigInt = BigInt(destAccount);
      const accountBytes = new Uint8Array(32); ...
      const keyring = new Keyring({ type: 'sr25519' });
      const account = keyring.encodeAddress(accountBytes);
      const tx = api.tx.airdrop.claim(accountBytes, signatureBytes);
      const hash = await tx.send();
      const unsub = await api.tx(hash).waitFinalized();
      const balance = await api.query.system.account(accountBytes);
      return hash.toHex();
    } catch (error) {
      console.error('Failed to submit claim:', error);
      throw error;
    }
  }
  \<close>
  The handler throws again what it caught, so an error leaves the function as it was
  raised.
\<close>

definition signatureBytes_arg :: "signature_arg \<Rightarrow> error + bytes" where
  "signatureBytes_arg sg =
     (case sg of
        SigString text \<Rightarrow>
          (let cleanSig = (if take 2 text = js ''0x'' then drop 2 text else text)
           in Inr (hex_decode cleanSig))
      | SigBytes b \<Rightarrow> Inr b
      | SigOther \<Rightarrow> Inl SignatureNotStringOrBytes)"

definition submitSignature ::
  "chain \<Rightarrow> jsstring \<Rightarrow> specifier \<Rightarrow> signature_arg \<Rightarrow> (chain_event, jsstring) run" where
  "submitSignature api walletAddress destAcc sg =
     bind_run (step (signatureBytes_arg sg)) (\<lambda>signatureBytes.
     bind_run (step (if length signatureBytes \<noteq> 65
                     then Inl (InvalidSignatureLength (length signatureBytes))
                     else Inr ())) (\<lambda>checked.
     bind_run (step (BigInt destAcc)) (\<lambda>destAccountBigInt.
     let accountBytes = accountBytes_loop 0 destAccountBigInt (replicate 32 0)
     in
     bind_run (call (AddressEncoded accountBytes) (encodeAddress api accountBytes)) (\<lambda>account.
     bind_run (await (ClaimSent accountBytes signatureBytes)
                 (claim_send api accountBytes signatureBytes)) (\<lambda>hash.
     bind_run (await (FinalityAwaited hash) (waitFinalized api hash)) (\<lambda>unsub.
     bind_run (await (AccountQueried accountBytes) (query_account api accountBytes)) (\<lambda>balance.
     ret hash)))))))"

section \<open>An example run\<close>

text \<open>
  Stand-ins for the libraries, to run the functions on the example of the repository
  (the account id 42 and its private key). The wallet accepts a key of 66 characters; the
  connection gives a number for the \<open>api\<close> object; the digest is the first 32 bytes of
  the message; a signature has the digest as \<open>r\<close>, its reverse as \<open>s\<close>, and \<open>v\<close> is 27
  or 28 as the first argument of \<open>demoSign\<close> is even or odd.
\<close>

definition demoKey :: jsstring where
  "demoKey = js ''0x9116d6c6a9c830c06af62af6d4101b566e2466d88510b6c11d655545c74790a4''"

definition demoAddress :: jsstring where
  "demoAddress = js ''0x0123456789abcdef0123456789abcdef01234567''"

definition demoSign :: "int \<Rightarrow> jsstring \<Rightarrow> bytes \<Rightarrow> error + ecdsa_signature" where
  "demoSign parity key digest =
     (if length digest = 32
      then Inr \<lparr>sig_r = hexlify digest, sig_s = hexlify (rev digest), sig_v = 27 + parity mod 2\<rparr>
      else Inl (External 2))"

definition demoLibraries :: "nat libraries" where
  "demoLibraries =
     \<lparr>Wallet = (\<lambda>key. if length key = 66 then Inr \<lparr>address = demoAddress, privateKey = key\<rparr>
                       else Inl (External 1)),
      ApiPromise_create = Returned 0,
      decodeAddress = rejectAddress,
      keccak256 = (\<lambda>m. take 32 (m @ replicate 32 0)),
      SigningKey = (\<lambda>key. Inr key),
      sign = demoSign 1\<rparr>"

definition demoMessage :: bytes where
  "demoMessage = claimMessage (encodeU64 (Num 42))"

definition demoDigest :: bytes where
  "demoDigest = take 32 (demoMessage @ replicate 32 0)"

definition demoChain :: chain where
  "demoChain =
     \<lparr>encodeAddress = (\<lambda>accountBytes. Inr (hexlify accountBytes)),
      claim_send = (\<lambda>accountBytes signatureBytes. Returned (js ''0x01'')),
      waitFinalized = (\<lambda>hash. Returned ()),
      query_account = (\<lambda>accountBytes. Returned (js ''100''))\<rparr>"

definition succeeded :: "'a outcome \<Rightarrow> bool" where
  "succeeded oc = (case oc of Returned a \<Rightarrow> True | Threw err \<Rightarrow> False | Pending \<Rightarrow> False)"

section \<open>Properties of encodeU64\<close>

lemma encodeU64_bytes:
  "encodeU64 num =
     [ToUint8 (ToInt32 num AND 0xFF),
      ToUint8 (signed_drop_bit 8 (ToInt32 num) AND 0xFF),
      ToUint8 (signed_drop_bit 16 (ToInt32 num) AND 0xFF),
      ToUint8 (signed_drop_bit 24 (ToInt32 num) AND 0xFF), 0, 0, 0, 0]"
  by (simp add: encodeU64_def Let_def eval_nat_numeral)

lemma length_encodeU64: "length (encodeU64 num) = 8"
  by (simp add: encodeU64_bytes)

lemma encodeU64_NaN: "encodeU64 NaN = [0, 0, 0, 0, 0, 0, 0, 0]"
  by (simp add: encodeU64_bytes ToUint8_def)

lemma encodeU64_zero: "encodeU64 (Num 0) = [0, 0, 0, 0, 0, 0, 0, 0]"
  by (simp add: encodeU64_bytes ToUint8_def)

lemma mask8: "(0xFF :: 32 word) = mask 8"
  by (simp add: mask_eq_exp_minus_1)

lemma low_byte_ucast:
  fixes w :: "32 word"
  shows "ToUint8 (w AND 0xFF) = ucast w"
  unfolding ToUint8_def mask8
  by (intro bit_word_eqI) (auto simp: bit_simps)

lemma ucast_signed_drop_bit:
  fixes w :: "32 word"
  assumes "k \<le> 24"
  shows "(ucast (signed_drop_bit k w) :: 8 word) = ucast (drop_bit k w)"
  using assms by (intro bit_word_eqI) (auto simp: bit_simps)

lemma unat_ucast_8:
  fixes w :: "32 word"
  shows "unat (ucast w :: 8 word) = unat w mod 256"
  by (simp add: unsigned_ucast_eq take_bit_eq_mod)

lemma unat_byte_of_shift:
  fixes w :: "32 word"
  assumes "k \<le> 24"
  shows "unat (ToUint8 (signed_drop_bit k w AND 0xFF)) = (unat w div 2 ^ k) mod 256"
proof -
  have "unat (ToUint8 (signed_drop_bit k w AND 0xFF)) = unat (ucast (drop_bit k w) :: 8 word)"
    by (simp only: low_byte_ucast ucast_signed_drop_bit [OF assms])
  also have "\<dots> = unat (drop_bit k w) mod 256"
    by (rule unat_ucast_8)
  also have "\<dots> = (unat w div 2 ^ k) mod 256"
    unfolding unat_drop_bit_eq by (simp only: drop_bit_eq_div)
  finally show ?thesis .
qed

lemma four_bytes_value:
  fixes x :: nat
  assumes "x < 4294967296"
  shows "x mod 256 + 256 * (x div 256 mod 256 +
           256 * (x div 65536 mod 256 + 256 * (x div 16777216 mod 256))) = x"
proof -
  define y where "y = x div 256"
  define z where "z = y div 256"
  define u where "u = z div 256"
  have z: "x div 65536 = z"
    using div_mult2_eq [of x 256 256] by (simp add: y_def z_def)
  have u: "x div 16777216 = u"
    using div_mult2_eq [of x 65536 256] z by (simp add: u_def)
  have "u < 256" using assms by (simp add: less_mult_imp_div_less flip: u)
  then have 1: "u mod 256 = u" by simp
  have 2: "z mod 256 + 256 * u = z" by (simp add: u_def)
  have 3: "y mod 256 + 256 * z = y" by (simp add: z_def)
  have 4: "x mod 256 + 256 * y = x" by (simp add: y_def)
  show ?thesis
    unfolding z u y_def [symmetric] 1 2 3 4 ..
qed

text \<open>
  The eight bytes, read as a little-endian integer, are the low 32 bits of the number.
\<close>

lemma le_value_encodeU64: "le_value (encodeU64 num) = unat (ToInt32 num)"
proof -
  have "unat (ToInt32 num) < 4294967296"
    using unsigned_less [of "ToInt32 num"] by simp
  from four_bytes_value [OF this]
  show ?thesis
    using unat_byte_of_shift [of 0 "ToInt32 num"] unat_byte_of_shift [of 8 "ToInt32 num"]
      unat_byte_of_shift [of 16 "ToInt32 num"] unat_byte_of_shift [of 24 "ToInt32 num"]
    by (simp add: encodeU64_bytes)
qed

text \<open>So every account id below \<open>2^32\<close> is encoded as the claim says.\<close>

lemma encodeU64_below_32_bits:
  assumes "0 \<le> n" and "n < 2 ^ 32"
  shows "length (encodeU64 (Num n)) = 8 \<and> le_value (encodeU64 (Num n)) = nat n"
  using assms
  by (simp add: length_encodeU64 le_value_encodeU64 unat_eq_nat_uint take_bit_int_eq_self
      uint_word_of_int_eq)

text \<open>
  The other path that writes an account id as bytes, the loop of \<open>submitSignature\<close>,
  does keep the bits above the 32nd.
\<close>

lemma submit_path_keeps_bit_32:
  "take 8 (accountBytes_loop 0 4294967296 (replicate 32 0)) = [0, 0, 0, 0, 1, 0, 0, 0]"
  by (simp add: eval_nat_numeral)

text \<open>
  Claim C1. For every non-negative integer \<open>n < 2^64\<close> taken as a numeric destination,
  \<open>encodeU64(n)\<close> is 8 bytes that reproduce \<open>n\<close> when read as a little-endian integer.
  The code keeps only the low 32 bits: at \<open>n = 2^32\<close> the eight bytes are all zero and
  read back as 0.
\<close>

theorem encodeU64_loses_bits_above_32:
  "encodeU64 (Num 4294967296) = [0, 0, 0, 0, 0, 0, 0, 0]
   \<and> le_value (encodeU64 (Num 4294967296)) = 0
   \<and> le_value (encodeU64 (Num 4294967296)) \<noteq> 4294967296"
  by (simp add: encodeU64_bytes ToUint8_def)

section \<open>Properties of the destination account\<close>

lemma parseInt_empty: "parseInt [] = NaN"
  by (simp add: parseInt_def)

lemma isNaN_empty: "\<not> StringToNumber_isNaN []"
  by (simp add: StringToNumber_isNaN_def TrimString_def)

lemma parseInt_zero: "parseInt (decimalDigits 0) = Num 0"
  by (simp add: parseInt_def decimalDigits.simps js_def isStrWhiteSpaceChar_def
      isRadixDigit_def hexDigitValue_def radixValue_def radixDigitValue_def numberOfInt_def
      roundToDouble_def)

text \<open>
  Claim C10. The empty string is not \<open>NaN\<close> for \<open>isNaN\<close>, so it takes the numeric
  branch; \<open>parseInt\<close> of it is \<open>NaN\<close>, which \<open>encodeU64\<close> writes as eight zero bytes, the
  encoding of the account id 0, and not as the (empty) raw text.
\<close>

theorem empty_specifier_is_account_zero:
  "\<not> isNaN (SStr []) \<and> parseInt [] = NaN
   \<and> destAccount d (SStr []) = [0, 0, 0, 0, 0, 0, 0, 0]
   \<and> destAccount d (SStr []) = destAccount d (SNum 0)
   \<and> destAccount d (SStr []) \<noteq> utf8_encode []"
  by (simp add: destAccount_def isNaN_empty parseInt_empty parseInt_zero encodeU64_NaN
      encodeU64_zero)

section \<open>Properties of toAsciiHex\<close>

lemma sint_ucast_byte:
  fixes c :: "8 word"
  shows "sint (ucast c :: 32 word) = uint c"
proof -
  have "uint c < 2 ^ 8" using unsigned_less [of c, where 'a = int] by simp
  then have "uint c < 2 ^ 31" by simp
  moreover have "- (2 ^ 31) \<le> uint c"
    by (rule order_trans [of _ 0]) simp_all
  ultimately show ?thesis
    by (simp add: signed_ucast_eq signed_take_bit_int_eq_self)
qed

lemma hi_nibble:
  fixes b :: "8 word"
  shows "sint (signed_drop_bit 4 (ucast b :: 32 word)) = int (unat b div 16)"
proof -
  have "signed_drop_bit 4 (ucast b :: 32 word) = ucast (drop_bit 4 b)"
    by (intro bit_word_eqI) (auto simp: bit_simps dest: bit_imp_le_length)
  then have "sint (signed_drop_bit 4 (ucast b :: 32 word)) = uint (drop_bit 4 b)"
    by (simp only: sint_ucast_byte)
  also have "\<dots> = int (unat (drop_bit 4 b))" by simp
  also have "\<dots> = int (unat b div 16)"
    unfolding unat_drop_bit_eq by (simp add: drop_bit_eq_div)
  finally show ?thesis .
qed

lemma lo_nibble:
  fixes b :: "8 word"
  shows "sint ((ucast b :: 32 word) AND 0x0F) = int (unat b mod 16)"
proof -
  have m: "(0x0F :: 32 word) = mask 4" by (simp add: mask_eq_exp_minus_1)
  have "(ucast b :: 32 word) AND 0x0F = ucast (take_bit 4 b)"
    unfolding m by (intro bit_word_eqI) (auto simp: bit_simps)
  then have "sint ((ucast b :: 32 word) AND 0x0F) = uint (take_bit 4 b)"
    by (simp only: sint_ucast_byte)
  also have "\<dots> = int (unat (take_bit 4 b))" by simp
  also have "\<dots> = int (unat b mod 16)"
    unfolding unsigned_take_bit_eq by (simp add: take_bit_eq_mod)
  finally show ?thesis .
qed

lemma lowerHexDigits_list:
  "lowerHexDigits = [0x30, 0x31, 0x32, 0x33, 0x34, 0x35, 0x36, 0x37, 0x38, 0x39,
                     0x61, 0x62, 0x63, 0x64, 0x65, 0x66]"
  by (simp add: lowerHexDigits_def)

lemma nibble_cases:
  fixes n :: nat
  assumes "n < 16"
  shows "n \<in> {0, 1, 2, 3, 4, 5, 6, 7, 8, 9, 10, 11, 12, 13, 14, 15}"
  using assms unfolding insert_iff empty_iff by presburger

lemma nibbleCode_digit:
  assumes "n < 16"
  shows "(word_of_int (nibbleCode (int n)) :: 8 word) = lowerHexDigits ! n"
  using nibble_cases [OF assms]
  by (elim insertE emptyE) (simp_all add: nibbleCode_def lowerHexDigits_list)

lemma take_two_updates:
  assumes "2 * i + 1 < length xs"
  shows "take (2 * (i + 1)) (xs[i * 2 := a, i * 2 + 1 := b]) = take (2 * i) xs @ [a, b]"
proof -
  let ?ys = "xs[i * 2 := a, i * 2 + 1 := b]"
  have "take (Suc (Suc (2 * i))) ?ys = take (Suc (2 * i)) ?ys @ [?ys ! Suc (2 * i)]"
    using assms by (intro take_Suc_conv_app_nth) simp
  also have "take (Suc (2 * i)) ?ys = take (2 * i) ?ys @ [?ys ! (2 * i)]"
    using assms by (intro take_Suc_conv_app_nth) simp
  finally show ?thesis
    using assms by (simp add: mult.commute)
qed

lemma toAsciiHex_loop_eq:
  assumes "length result = 2 * length data" and "i \<le> length data"
  shows "toAsciiHex_loop data i result = take (2 * i) result @ concat (map hexPair (drop i data))"
  using assms
proof (induction data i result rule: toAsciiHex_loop.induct)
  case (1 data i result)
  show ?case
  proof (cases "i < length data")
    case False
    with 1 show ?thesis by (simp add: toAsciiHex_loop.simps)
  next
    case True
    define a where "a = lowerHexDigits ! (unat (data ! i) div 16)"
    define b where "b = lowerHexDigits ! (unat (data ! i) mod 16)"
    define result' where "result' = result[i * 2 := a, i * 2 + 1 := b]"
    have hi: "unat (data ! i) div 16 < 16"
      using unsigned_less [of "data ! i", where 'a = nat] by (simp add: less_mult_imp_div_less)
    have step: "toAsciiHex_loop data i result = toAsciiHex_loop data (i + 1) result'"
      using True
      by (subst toAsciiHex_loop.simps)
         (simp add: Let_def hi_nibble lo_nibble nibbleCode_digit hi result'_def a_def b_def)
    have len: "length result' = 2 * length data"
      using 1 by (simp add: result'_def)
    have "toAsciiHex_loop data (i + 1) result'
            = take (2 * (i + 1)) result' @ concat (map hexPair (drop (i + 1) data))"
      using "1.IH" [OF True refl refl refl refl refl] len True
      by (simp add: result'_def a_def b_def hi_nibble lo_nibble nibbleCode_digit hi)
    also have "take (2 * (i + 1)) result' = take (2 * i) result @ [a, b]"
      unfolding result'_def using True 1 by (intro take_two_updates) simp
    also have "drop i data = data ! i # drop (i + 1) data"
      using True by (simp add: Cons_nth_drop_Suc)
    then have "(take (2 * i) result @ [a, b]) @ concat (map hexPair (drop (i + 1) data))
                 = take (2 * i) result @ concat (map hexPair (drop i data))"
      by (simp add: hexPair_def a_def b_def)
    finally show ?thesis using step by simp
  qed
qed

lemma toAsciiHex_eq: "toAsciiHex data = concat (map hexPair data)"
  by (simp add: toAsciiHex_def toAsciiHex_loop_eq)


lemma lowerHexValue_digit:
  assumes "n < 16"
  shows "lowerHexValue (lowerHexDigits ! n) = Some n"
  using nibble_cases [OF assms]
  by (elim insertE emptyE) (simp_all add: lowerHexValue_def lowerHexDigits_list)

lemma lowerHexValue_member:
  assumes "c \<in> set lowerHexDigits"
  shows "\<exists>n. lowerHexValue c = Some n"
  using assms by (auto simp: lowerHexValue_def lowerHexDigits_list)

lemma lowerHexValue_Some:
  assumes "lowerHexValue a = Some h"
  shows "h < 16 \<and> lowerHexDigits ! h = a"
proof -
  define n where "n = unat a"
  have a: "a = of_nat n" by (simp add: n_def)
  consider "48 \<le> n" "n \<le> 57" "h = n - 48" | "97 \<le> n" "n \<le> 102" "h = n - 87"
    using assms unfolding lowerHexValue_def n_def
    by (auto simp: word_le_nat_alt split: if_splits)
  then show ?thesis
  proof cases
    case 1
    then have "n \<in> {48, 49, 50, 51, 52, 53, 54, 55, 56, 57}"
      unfolding insert_iff empty_iff by presburger
    then show ?thesis
      unfolding a \<open>h = n - 48\<close> by (elim insertE emptyE) (simp_all add: lowerHexDigits_list)
  next
    case 2
    then have "n \<in> {97, 98, 99, 100, 101, 102}"
      unfolding insert_iff empty_iff by presburger
    then show ?thesis
      unfolding a \<open>h = n - 87\<close> by (elim insertE emptyE) (simp_all add: lowerHexDigits_list)
  qed
qed

lemma byte_of_nibbles:
  fixes b :: "8 word"
  shows "of_nat (16 * (unat b div 16) + unat b mod 16) = b"
  by simp

lemma nibbles_of_byte:
  assumes "h < 16" and "l < 16"
  shows "unat (of_nat (16 * h + l) :: 8 word) div 16 = h \<and> unat (of_nat (16 * h + l) :: 8 word) mod 16 = l"
proof -
  have "16 * h + l < 256" using assms by simp
  then have "unat (of_nat (16 * h + l) :: 8 word) = 16 * h + l"
    by (simp only: unat_of_nat) simp
  then show ?thesis using assms by (simp del: of_nat_add of_nat_mult)
qed

lemma fromAsciiHex_hexPairs: "fromAsciiHex (concat (map hexPair d)) = Some d"
proof (induction d)
  case Nil
  show ?case by simp
next
  case (Cons b d)
  have "unat b div 16 < 16"
    using unsigned_less [of b, where 'a = nat] by (simp add: less_mult_imp_div_less)
  then show ?case
    using Cons by (simp add: hexPair_def lowerHexValue_digit)
qed

lemma hexPairs_fromAsciiHex:
  "fromAsciiHex x = Some d \<Longrightarrow> concat (map hexPair d) = x"
proof (induction x arbitrary: d rule: fromAsciiHex.induct)
  case 1
  then show ?case by simp
next
  case (2 c)
  then show ?case by simp
next
  case (3 a b cs)
  from "3.prems" obtain h l ds where
    h: "lowerHexValue a = Some h" and l: "lowerHexValue b = Some l"
    and ds: "fromAsciiHex cs = Some ds" and d: "d = of_nat (16 * h + l) # ds"
    by (auto split: option.splits)
  from "3.IH" [OF ds] have "concat (map hexPair ds) = cs" .
  moreover have "hexPair (of_nat (16 * h + l)) = [a, b]"
    using lowerHexValue_Some [OF h] lowerHexValue_Some [OF l]
    by (simp add: hexPair_def nibbles_of_byte del: of_nat_add of_nat_mult)
  ultimately show ?case by (simp add: d del: of_nat_add of_nat_mult)
qed

lemma fromAsciiHex_total:
  "isLowerHexText x \<Longrightarrow> \<exists>d. fromAsciiHex x = Some d"
proof (induction x rule: fromAsciiHex.induct)
  case 1
  show ?case by simp
next
  case (2 c)
  then show ?case by (simp add: isLowerHexText_def)
next
  case (3 a b cs)
  then have "isLowerHexText cs" and a: "a \<in> set lowerHexDigits" and b: "b \<in> set lowerHexDigits"
    by (simp_all add: isLowerHexText_def)
  with 3 obtain ds where "fromAsciiHex cs = Some ds" by auto
  then show ?case
    using lowerHexValue_member [OF a] lowerHexValue_member [OF b] by auto
qed

lemma length_hexPairs: "length (concat (map hexPair d)) = 2 * length d"
  by (induction d) (simp_all add: hexPair_def)

text \<open>
  Claim C3. For every byte sequence \<open>d\<close>, \<open>toAsciiHex(d)\<close> has length \<open>2 * |d|\<close> and
  holds, for each byte in order, the lowercase hex digit of its high nibble and then of
  its low nibble. So \<open>toAsciiHex\<close> is injective, the decoder gives back \<open>d\<close>, and every
  lowercase hex text is the image of the bytes it decodes to.
\<close>

theorem toAsciiHex_hex_text:
  "toAsciiHex d =
     concat (map (\<lambda>b. [lowerHexDigits ! (unat b div 16), lowerHexDigits ! (unat b mod 16)]) d)
   \<and> length (toAsciiHex d) = 2 * length d
   \<and> inj toAsciiHex
   \<and> fromAsciiHex (toAsciiHex d) = Some d
   \<and> (isLowerHexText x \<longrightarrow> (\<exists>d'. fromAsciiHex x = Some d' \<and> toAsciiHex d' = x))"
proof (intro conjI)
  show "toAsciiHex d =
     concat (map (\<lambda>b. [lowerHexDigits ! (unat b div 16), lowerHexDigits ! (unat b mod 16)]) d)"
    using toAsciiHex_eq [of d] by (simp add: hexPair_def [abs_def])
  show "length (toAsciiHex d) = 2 * length d"
    by (simp only: toAsciiHex_eq length_hexPairs)
  show "inj toAsciiHex"
  proof (rule injI)
    fix d e assume "toAsciiHex d = toAsciiHex e"
    then have "fromAsciiHex (concat (map hexPair d)) = fromAsciiHex (concat (map hexPair e))"
      by (simp add: toAsciiHex_eq)
    then show "d = e" by (simp add: fromAsciiHex_hexPairs)
  qed
  show "fromAsciiHex (toAsciiHex d) = Some d"
    by (simp only: toAsciiHex_eq fromAsciiHex_hexPairs)
  show "isLowerHexText x \<longrightarrow> (\<exists>d'. fromAsciiHex x = Some d' \<and> toAsciiHex d' = x)"
    using fromAsciiHex_total [of x] hexPairs_fromAsciiHex [of x] by (auto simp: toAsciiHex_eq)
qed

theorem toAsciiHex_hex_text_witness:
  "toAsciiHex [0x2A, 0xFF] = [0x32, 0x61, 0x66, 0x66]
   \<and> isLowerHexText [0x32, 0x61, 0x66, 0x66]
   \<and> fromAsciiHex [0x32, 0x61, 0x66, 0x66] = Some [0x2A, 0xFF]"
  using toAsciiHex_hex_text [of "[0x2A, 0xFF]" "[0x32, 0x61, 0x66, 0x66]"]
  by (simp add: lowerHexDigits_list isLowerHexText_def lowerHexValue_def)

section \<open>Properties of createEthereumSignableMessage\<close>

lemma digit_char:
  assumes "k < 10"
  shows "(of_nat (48 + k) :: 16 word) \<in> {0x30, 0x31, 0x32, 0x33, 0x34, 0x35, 0x36, 0x37, 0x38, 0x39}"
proof -
  from assms have "k \<in> {0, 1, 2, 3, 4, 5, 6, 7, 8, 9}"
    unfolding insert_iff empty_iff by presburger
  then show ?thesis by (elim insertE emptyE) simp_all
qed

lemma digit_char_value:
  assumes "k < 10"
  shows "unat (ucast (of_nat (48 + k) :: 16 word) :: 8 word) = 48 + k"
proof -
  from assms have "k \<in> {0, 1, 2, 3, 4, 5, 6, 7, 8, 9}"
    unfolding insert_iff empty_iff by presburger
  then show ?thesis by (elim insertE emptyE) simp_all
qed

lemma length_asciiBytes: "length (asciiBytes s) = length s"
  by (simp add: asciiBytes_def)

lemma utf8_encode_ascii:
  assumes "list_all (\<lambda>c. c < 0x80) s"
  shows "utf8_encode s = map ucast s"
  using assms
proof (induction s rule: utf8_encode.induct)
  case 1
  show ?case by simp
next
  case (2 c)
  then have "unat c < 128" by (simp add: word_less_nat_alt)
  moreover from 2 have "\<not> isHighSurrogate c" "\<not> isLowSurrogate c"
    by (auto simp: isHighSurrogate_def isLowSurrogate_def word_less_nat_alt word_le_nat_alt)
  ultimately show ?case by (simp add: utf8_of_codepoint_def)
next
  case (3 c d cs)
  then have "unat c < 128" by (simp add: word_less_nat_alt)
  moreover from 3 have "\<not> isHighSurrogate c" "\<not> isLowSurrogate c"
    by (auto simp: isHighSurrogate_def isLowSurrogate_def word_less_nat_alt word_le_nat_alt)
  ultimately show ?case using 3 by (simp add: utf8_of_codepoint_def)
qed

lemma stringToU8a_js_ascii:
  assumes "list_all (\<lambda>c. of_char c < (128 :: nat)) s"
  shows "stringToU8a (js s) = asciiBytes s"
proof -
  have small: "list_all (\<lambda>c. c < 0x80) (js s)"
    using assms
    by (induction s) (simp_all add: js_def word_less_nat_alt unat_of_nat)
  have "map ucast (js s) = asciiBytes s"
    using assms
    by (induction s) (simp_all add: js_def asciiBytes_def unsigned_of_nat take_bit_nat_eq_self)
  with utf8_encode_ascii [OF small] show ?thesis
    by (simp only: stringToU8a_def)
qed

lemma stringToU8a_header:
  "stringToU8a header_text = asciiBytes (CHR 0x19 # ''Ethereum Signed Message:'' @ [CHR 0x0A])"
  unfolding header_text_def by (rule stringToU8a_js_ascii) simp

lemma stringToU8a_prefix:
  "stringToU8a prefix_text = asciiBytes ''Pay RUSTs to the TEST account:''"
  unfolding prefix_text_def by (rule stringToU8a_js_ascii) simp

lemma length_header: "length (stringToU8a header_text) = 26"
  by (simp add: stringToU8a_header asciiBytes_def)

lemma length_prefix: "length (stringToU8a prefix_text) = 30"
  by (simp add: stringToU8a_prefix asciiBytes_def)

lemma decimalDigits_chars:
  "set (decimalDigits n) \<subseteq> {0x30, 0x31, 0x32, 0x33, 0x34, 0x35, 0x36, 0x37, 0x38, 0x39}"
proof (induction n rule: decimalDigits.induct)
  case (1 n)
  show ?case
  proof (cases "n < 10")
    case True
    then show ?thesis
      using digit_char [of n] by (subst decimalDigits.simps) simp
  next
    case False
    have "n mod 10 < 10" by simp
    from digit_char [OF this] False 1 show ?thesis
      by (subst decimalDigits.simps) simp
  qed
qed

lemma decimalDigits_nonempty: "decimalDigits n \<noteq> []"
  by (subst decimalDigits.simps) simp

lemma stringToU8a_decimalDigits:
  "stringToU8a (decimalDigits n) = map ucast (decimalDigits n)"
proof -
  have "list_all (\<lambda>c. c < 0x80) (decimalDigits n)"
    using decimalDigits_chars [of n] by (auto simp: list_all_iff)
  then show ?thesis
    by (simp only: stringToU8a_def utf8_encode_ascii)
qed

lemma decimalValue_digits:
  "decimalValue (map ucast (decimalDigits n)) = n"
proof (induction n rule: decimalDigits.induct)
  case (1 n)
  show ?case
  proof (cases "n < 10")
    case True
    then show ?thesis
      using digit_char_value [of n]
      by (subst decimalDigits.simps) (simp add: decimalValue_def del: of_nat_add)
  next
    case False
    have "n mod 10 < 10" by simp
    from digit_char_value [OF this] False 1 show ?thesis
      by (subst decimalDigits.simps) (simp add: decimalValue_def del: of_nat_add)
  qed
qed

lemma isDigitByte_digits:
  "list_all isDigitByte (map ucast (decimalDigits n))"
  using decimalDigits_chars [of n]
  by (auto simp: list_all_iff isDigitByte_def)

lemma hd_digits:
  assumes "0 < n"
  shows "hd (map ucast (decimalDigits n)) \<noteq> (0x30 :: 8 word)"
  using assms
proof (induction n rule: decimalDigits.induct)
  case (1 n)
  show ?case
  proof (cases "n < 10")
    case True
    have "unat (hd (map ucast (decimalDigits n)) :: 8 word) = 48 + n"
      using digit_char_value [OF True] True
      by (subst decimalDigits.simps) (simp del: of_nat_add)
    with 1 show ?thesis by auto
  next
    case False
    then have "0 < n div 10" by simp
    with False 1 show ?thesis
      by (subst decimalDigits.simps) (simp add: decimalDigits_nonempty hd_append hd_map)
  qed
qed


lemma u8a_set_fill:
  assumes "offset = length pre" and "length src \<le> k"
  shows "u8a_set (pre @ replicate k 0) src offset = Inr (pre @ src @ replicate (k - length src) 0)"
  using assms by (simp add: u8a_set_def)

lemma u8a_set_fill0:
  assumes "length src \<le> k"
  shows "u8a_set (replicate k 0) src 0 = Inr (src @ replicate (k - length src) 0)"
  using u8a_set_fill [of 0 "[]" src k] assms by simp

lemma u8a_set_fill2:
  assumes "offset = length a + length b" and "length src \<le> k"
  shows "u8a_set (a @ b @ replicate k 0) src offset = Inr (a @ b @ src @ replicate (k - length src) 0)"
  using u8a_set_fill [of offset "a @ b" src k] assms by simp

lemma u8a_set_fill3:
  assumes "offset = length a + length b + length c" and "length src \<le> k"
  shows "u8a_set (a @ b @ c @ replicate k 0) src offset
           = Inr (a @ b @ c @ src @ replicate (k - length src) 0)"
  using u8a_set_fill [of offset "a @ b @ c" src k] assms by simp

lemma u8a_set_fill4:
  assumes "offset = length a + length b + length c + length d" and "length src \<le> k"
  shows "u8a_set (a @ b @ c @ d @ replicate k 0) src offset
           = Inr (a @ b @ c @ d @ src @ replicate (k - length src) 0)"
  using u8a_set_fill [of offset "a @ b @ c @ d" src k] assms by simp

lemma createEthereumSignableMessage_eq:
  "createEthereumSignableMessage what extra_arg =
     Inr (stringToU8a header_text
          @ stringToU8a (decimalDigits (length (stringToU8a prefix_text) + length what
                                         + length (case extra_arg of None \<Rightarrow> [] | Some e \<Rightarrow> e)))
          @ stringToU8a prefix_text @ what @ (case extra_arg of None \<Rightarrow> [] | Some e \<Rightarrow> e))"
  by (simp add: createEthereumSignableMessage_def Let_def u8a_set_fill0 u8a_set_fill
      u8a_set_fill2 u8a_set_fill3 u8a_set_fill4)

text \<open>
  Claim C4. \<open>createEthereumSignableMessage(what, extra)\<close> is, in order: the preamble
  \<open>\x19Ethereum Signed Message:\n\<close>, the length field, the 30 bytes of
  \<open>Pay RUSTs to the TEST account:\<close>, \<open>what\<close> and \<open>extra\<close>. The length field is made of
  ASCII decimal digits only, does not start with \<open>0\<close>, and its value is
  \<open>30 + |what| + |extra|\<close>, which counts neither the preamble nor the field itself. The
  message is \<open>26 + digits + payload\<close> bytes long, and an omitted \<open>extra\<close> is the empty
  one.
\<close>

theorem signable_message_layout:
  "createEthereumSignableMessage what (Some extra) =
     Inr (asciiBytes (CHR 0x19 # ''Ethereum Signed Message:'' @ [CHR 0x0A])
          @ stringToU8a (decimalDigits (30 + length what + length extra))
          @ asciiBytes ''Pay RUSTs to the TEST account:'' @ what @ extra)
   \<and> length (asciiBytes ''Pay RUSTs to the TEST account:'') = 30
   \<and> decimalValue (stringToU8a (decimalDigits (30 + length what + length extra)))
        = 30 + length what + length extra
   \<and> list_all isDigitByte (stringToU8a (decimalDigits (30 + length what + length extra)))
   \<and> stringToU8a (decimalDigits (30 + length what + length extra)) \<noteq> []
   \<and> hd (stringToU8a (decimalDigits (30 + length what + length extra))) \<noteq> 0x30
   \<and> (case createEthereumSignableMessage what (Some extra) of
         Inr message \<Rightarrow>
           length message
             = 26 + length (stringToU8a (decimalDigits (30 + length what + length extra)))
               + (30 + length what + length extra)
       | Inl err \<Rightarrow> False)
   \<and> createEthereumSignableMessage what None = createEthereumSignableMessage what (Some [])"
proof (intro conjI)
  show "createEthereumSignableMessage what (Some extra) =
     Inr (asciiBytes (CHR 0x19 # ''Ethereum Signed Message:'' @ [CHR 0x0A])
          @ stringToU8a (decimalDigits (30 + length what + length extra))
          @ asciiBytes ''Pay RUSTs to the TEST account:'' @ what @ extra)"
  proof -
    have "createEthereumSignableMessage what (Some extra) =
      Inr (stringToU8a header_text
           @ stringToU8a (decimalDigits (30 + length what + length extra))
           @ stringToU8a prefix_text @ what @ extra)"
      by (simp add: createEthereumSignableMessage_eq length_prefix)
    then show ?thesis
      by (simp only: stringToU8a_header stringToU8a_prefix)
  qed
  show "length (asciiBytes ''Pay RUSTs to the TEST account:'') = 30"
    by (simp add: asciiBytes_def)
  show "decimalValue (stringToU8a (decimalDigits (30 + length what + length extra)))
        = 30 + length what + length extra"
    by (simp only: stringToU8a_decimalDigits decimalValue_digits)
  show "list_all isDigitByte (stringToU8a (decimalDigits (30 + length what + length extra)))"
    by (simp only: stringToU8a_decimalDigits isDigitByte_digits)
  show "stringToU8a (decimalDigits (30 + length what + length extra)) \<noteq> []"
    by (simp add: stringToU8a_decimalDigits decimalDigits_nonempty)
  show "hd (stringToU8a (decimalDigits (30 + length what + length extra))) \<noteq> 0x30"
    unfolding stringToU8a_decimalDigits by (rule hd_digits) simp
  show "case createEthereumSignableMessage what (Some extra) of
         Inr message \<Rightarrow>
           length message
             = 26 + length (stringToU8a (decimalDigits (30 + length what + length extra)))
               + (30 + length what + length extra)
       | Inl err \<Rightarrow> False"
    by (simp add: createEthereumSignableMessage_eq length_prefix length_header)
  show "createEthereumSignableMessage what None = createEthereumSignableMessage what (Some [])"
    by (simp add: createEthereumSignableMessage_eq)
qed

section \<open>Which branch encodes the destination\<close>

lemma digit_not_space: "isDecimalDigit c \<Longrightarrow> \<not> isStrWhiteSpaceChar c"
  by (auto simp: isDecimalDigit_def isStrWhiteSpaceChar_def word_le_nat_alt)

lemma digit_not_sign: "isDecimalDigit c \<Longrightarrow> c \<noteq> 0x2B \<and> c \<noteq> 0x2D"
  by (auto simp: isDecimalDigit_def)

lemma digit_is_radix10: "isDecimalDigit c \<Longrightarrow> isRadixDigit 10 c"
  by (auto simp: isDecimalDigit_def isRadixDigit_def hexDigitValue_def word_le_nat_alt)

lemma dropWhile_digits:
  assumes "s \<noteq> []" and "list_all isDecimalDigit s"
  shows "dropWhile isStrWhiteSpaceChar s = s"
  using assms by (cases s) (simp_all add: digit_not_space)

lemma TrimString_digits:
  assumes "s \<noteq> []" and "list_all isDecimalDigit s"
  shows "TrimString s = s"
proof -
  have "rev s \<noteq> []" "list_all isDecimalDigit (rev s)"
    using assms by (simp_all add: list_all_iff)
  then have "dropWhile isStrWhiteSpaceChar (rev s) = rev s"
    by (rule dropWhile_digits)
  then show ?thesis
    by (simp add: TrimString_def dropWhile_digits [OF assms])
qed

lemma stripSign_digits:
  assumes "list_all isDecimalDigit s"
  shows "stripSign s = s"
  using assms by (cases s) (auto simp: stripSign_def dest: digit_not_sign)

lemma digits_not_NaN:
  assumes "s \<noteq> []" and "list_all isDecimalDigit s"
  shows "\<not> StringToNumber_isNaN s"
proof -
  have tw: "takeWhile isDecimalDigit s = s" and dw: "dropWhile isDecimalDigit s = []"
    using assms(2) by (simp_all add: list_all_iff)
  have "isStrUnsignedDecimalLiteral s"
    unfolding isStrUnsignedDecimalLiteral_def tw dw Let_def using assms(1) by simp
  then show ?thesis
    by (simp add: StringToNumber_isNaN_def TrimString_digits [OF assms] isStrDecimalLiteral_def
        stripSign_digits [OF assms(2)])
qed

lemma parseInt_digits:
  assumes "s \<noteq> []" and "list_all isDecimalDigit s"
  shows "parseInt s = numberOfInt (int (radixValue 10 s))"
proof -
  have nohex: "take 2 s \<noteq> js ''0x''" "take 2 s \<noteq> js ''0X''"
    using assms(2)
    by (cases s; cases "tl s"; auto simp: js_def isDecimalDigit_def)+
  have nosign: "hd s \<noteq> 0x2B" "hd s \<noteq> 0x2D"
    using assms by (cases s; auto dest: digit_not_sign)+
  have tw: "takeWhile (isRadixDigit 10) s = s"
    using assms(2) by (simp add: list_all_iff digit_is_radix10)
  have "parseInt s =
          (if takeWhile (isRadixDigit 10) s = [] then NaN
           else numberOfInt (1 * int (radixValue 10 (takeWhile (isRadixDigit 10) s))))"
    using assms(1) nohex nosign
    by (simp add: parseInt_def Let_def dropWhile_digits [OF assms])
  then show ?thesis
    unfolding tw using assms(1) by simp
qed

text \<open>
  Claim C2, as amended. For every destination specifier string, the encoder takes the
  numeric branch (u64 encoding: \<open>encodeU64\<close> applied to \<open>parseInt\<close> of the string) if and
  only if \<open>isNaN\<close> of the string is false. Every string that parses fully as a
  non-negative integer representable in 64 bits takes it, and so does every other
  non-empty string of decimal digits: a numeric-looking string outside the 64-bit range
  does not throw and does not fall through. A string for which \<open>isNaN\<close> is true does not
  throw but falls through to the chain-address tier, the account being the decoded public
  key, and then, if the decoder throws, to the raw UTF-8 tier, the account being the
  UTF-8 bytes of the string (first match wins).
\<close>

theorem destAccount_tiers:
  "(destTier d (SStr s) = NumericTier \<longleftrightarrow> \<not> isNaN (SStr s))
   \<and> (parsesAsU64 s \<longrightarrow> destTier d (SStr s) = NumericTier)
   \<and> (s \<noteq> [] \<and> list_all isDecimalDigit s \<longrightarrow> destTier d (SStr s) = NumericTier)
   \<and> (destTier d (SStr s) = NumericTier \<longrightarrow> destAccount d (SStr s) = encodeU64 (parseInt s))
   \<and> (destTier d (SStr s) = AddressTier \<longrightarrow>
         isNaN (SStr s) \<and> d s = Inr (destAccount d (SStr s)))
   \<and> (destTier d (SStr s) = RawTextTier \<longrightarrow>
         isNaN (SStr s) \<and> (\<exists>err. d s = Inl err) \<and> destAccount d (SStr s) = utf8_encode s)"
  using digits_not_NaN [of s]
  by (auto simp: destTier_def destAccount_def parsesAsU64_def split: sum.splits)

lemma isNaN_42: "\<not> StringToNumber_isNaN (js ''42'')"
  by (simp add: StringToNumber_isNaN_def TrimString_def js_def isStrWhiteSpaceChar_def
      isStrDecimalLiteral_def stripSign_def isStrUnsignedDecimalLiteral_def isDecimalDigit_def)

lemma isNaN_abc: "StringToNumber_isNaN (js ''abc'')"
  by (simp add: StringToNumber_isNaN_def TrimString_def js_def isStrWhiteSpaceChar_def
      isStrDecimalLiteral_def stripSign_def isStrUnsignedDecimalLiteral_def isDecimalDigit_def
      isNonDecimalIntegerLiteral_def)

lemma isNaN_2_64: "\<not> StringToNumber_isNaN (js ''18446744073709551616'')"
  by (simp add: StringToNumber_isNaN_def TrimString_def js_def isStrWhiteSpaceChar_def
      isStrDecimalLiteral_def stripSign_def isStrUnsignedDecimalLiteral_def isDecimalDigit_def)

lemma parseInt_2_64: "parseInt (js ''18446744073709551616'') = Num 18446744073709551616"
  by (simp add: parseInt_def js_def isStrWhiteSpaceChar_def isRadixDigit_def
      hexDigitValue_def radixValue_def radixDigitValue_def numberOfInt_def roundToDouble_def)

lemma parsesAsU64_2_64: "\<not> parsesAsU64 (js ''18446744073709551616'')"
  by (simp add: parsesAsU64_def js_def radixValue_def radixDigitValue_def hexDigitValue_def)

lemma parsesAsU64_42: "parsesAsU64 (js ''42'')"
  by (simp add: parsesAsU64_def js_def radixValue_def radixDigitValue_def hexDigitValue_def isDecimalDigit_def)

lemma utf8_abc: "utf8_encode (js ''abc'') = [0x61, 0x62, 0x63]"
  by (simp add: js_def utf8_of_codepoint_def isHighSurrogate_def isLowSurrogate_def)


lemma encodeU64_2_64: "encodeU64 (Num 18446744073709551616) = [0, 0, 0, 0, 0, 0, 0, 0]"
  by (simp add: encodeU64_bytes ToUint8_def)

lemma utf8_2_64: "length (utf8_encode (js ''18446744073709551616'')) = 20"
  by (simp add: js_def utf8_of_codepoint_def isHighSurrogate_def isLowSurrogate_def)

text \<open>
  Claim C2, as stated: the numeric branch is taken if and only if the string parses fully
  as a non-negative integer representable in 64 bits, and a numeric-looking string outside
  that range falls through to the address decoder and then to its raw UTF-8 bytes. The
  string \<open>18446744073709551616\<close>, which is \<open>2^64\<close>, is outside the range and still takes
  the numeric branch: with a decoder that rejects it, the account is eight zero bytes and
  not the 20 bytes of the text.
\<close>

theorem numeric_branch_beyond_u64:
  "\<not> parsesAsU64 (js ''18446744073709551616'')
   \<and> \<not> isNaN (SStr (js ''18446744073709551616''))
   \<and> destTier rejectAddress (SStr (js ''18446744073709551616'')) = NumericTier
   \<and> destAccount rejectAddress (SStr (js ''18446744073709551616'')) = [0, 0, 0, 0, 0, 0, 0, 0]
   \<and> destAccount rejectAddress (SStr (js ''18446744073709551616''))
        \<noteq> utf8_encode (js ''18446744073709551616'')"
proof -
  have "destAccount rejectAddress (SStr (js ''18446744073709551616'')) = [0, 0, 0, 0, 0, 0, 0, 0]"
    by (simp add: destAccount_def isNaN_2_64 parseInt_2_64 encodeU64_2_64)
  moreover have "utf8_encode (js ''18446744073709551616'') \<noteq> [0, 0, 0, 0, 0, 0, 0, 0]"
    using utf8_2_64 by auto
  ultimately show ?thesis
    using isNaN_2_64 parsesAsU64_2_64 by (simp add: destTier_def)
qed

lemma parseInt_42: "parseInt (js ''42'') = Num 42"
  by (simp add: parseInt_def js_def isStrWhiteSpaceChar_def isRadixDigit_def
      hexDigitValue_def radixValue_def radixDigitValue_def numberOfInt_def roundToDouble_def)

lemma encodeU64_Num_42: "encodeU64 (Num 42) = [42, 0, 0, 0, 0, 0, 0, 0]"
  by (simp add: encodeU64_bytes ToUint8_def)

theorem destAccount_tiers_witness:
  "parsesAsU64 (js ''42'')
   \<and> destTier rejectAddress (SStr (js ''42'')) = NumericTier
   \<and> destAccount rejectAddress (SStr (js ''42'')) = [42, 0, 0, 0, 0, 0, 0, 0]
   \<and> destTier rejectAddress (SStr (js ''abc'')) = RawTextTier
   \<and> destAccount rejectAddress (SStr (js ''abc'')) = [0x61, 0x62, 0x63]
   \<and> destTier (\<lambda>s. Inr [1, 2, 3]) (SStr (js ''abc'')) = AddressTier
   \<and> destAccount (\<lambda>s. Inr [1, 2, 3]) (SStr (js ''abc'')) = [1, 2, 3]"
proof -
  have t1: "destTier rejectAddress (SStr (js ''abc'')) = RawTextTier"
    by (simp add: destTier_def isNaN_abc rejectAddress_def)
  have t2: "destTier (\<lambda>s. Inr [1, 2, 3]) (SStr (js ''abc'')) = AddressTier"
    by (simp add: destTier_def isNaN_abc)
  show ?thesis
    using destAccount_tiers [of rejectAddress "js ''42''"]
      destAccount_tiers [of rejectAddress "js ''abc''"]
      destAccount_tiers [of "\<lambda>s. Inr [1, 2, 3]" "js ''abc''"]
    by (simp add: parsesAsU64_42 parseInt_42 encodeU64_Num_42 utf8_abc t1 t2)
qed

section \<open>Properties of generateClaimSignature\<close>

lemma HexCharacters_list:
  "HexCharacters = [0x30, 0x31, 0x32, 0x33, 0x34, 0x35, 0x36, 0x37, 0x38, 0x39,
                    0x61, 0x62, 0x63, 0x64, 0x65, 0x66]"
  by (simp add: HexCharacters_def js_def)

lemma HexCharacters_digit:
  assumes "n < 16"
  shows "isRadixDigit 16 (HexCharacters ! n) \<and> radixDigitValue (HexCharacters ! n) = n"
  using nibble_cases [OF assms]
  by (elim insertE emptyE)
     (simp_all add: HexCharacters_list isRadixDigit_def radixDigitValue_def hexDigitValue_def)

lemma unat_low_nibble:
  fixes v :: "8 word"
  shows "unat (v AND 0x0F) = unat v mod 16"
proof -
  have m: "(0x0F :: 8 word) = mask 4" by (simp add: mask_eq_exp_minus_1)
  have "v AND 0x0F = take_bit 4 v"
    unfolding m by (intro bit_word_eqI) (auto simp: bit_simps)
  then show ?thesis
    by (simp only: unsigned_take_bit_eq) (simp add: take_bit_eq_mod)
qed

lemma unat_high_nibble:
  fixes v :: "8 word"
  shows "unat (drop_bit 4 (v AND 0xF0)) = unat v div 16"
proof -
  have "unat v div 16 < 16"
    using unsigned_less [of v, where 'a = nat] by (simp add: less_mult_imp_div_less)
  then have small: "unat v div 16 mod 16 = unat v div 16" by simp
  have "drop_bit 4 (v AND 0xF0) = drop_bit 4 v AND 0x0F" by simp
  then have "unat (drop_bit 4 (v AND 0xF0)) = unat (drop_bit 4 v) mod 16"
    by (simp only: unat_low_nibble)
  also have "unat (drop_bit 4 v) = unat v div 16"
    unfolding unat_drop_bit_eq by (simp add: drop_bit_eq_div)
  finally show ?thesis using small by simp
qed

lemma hexlify_digits_Cons:
  "hexlify_digits (v # vs) =
     HexCharacters ! (unat v div 16) # HexCharacters ! (unat v mod 16) # hexlify_digits vs"
  by (simp only: hexlify_digits.simps unat_high_nibble unat_low_nibble)

lemma hexlify_digits_props:
  "even (length (hexlify_digits d)) \<and> list_all (isRadixDigit 16) (hexlify_digits d)
   \<and> hexPairs (hexlify_digits d) = d"
proof (induction d)
  case Nil
  show ?case by simp
next
  case (Cons v d)
  have hi: "unat v div 16 < 16"
    using unsigned_less [of v, where 'a = nat] by (simp add: less_mult_imp_div_less)
  have lo: "unat v mod 16 < 16" by simp
  have "(of_nat (16 * (unat v div 16) + unat v mod 16) :: 8 word) = v" by simp
  then show ?case
    using Cons HexCharacters_digit [OF hi] HexCharacters_digit [OF lo]
    by (simp add: hexlify_digits_Cons del: hexlify_digits.simps of_nat_add of_nat_mult)
qed

lemma getBytes_hexlify: "getBytes (hexlify d) = Inr d"
  using hexlify_digits_props [of d]
  by (simp add: getBytes_def hexlify_def js_def)


lemma hexlify_inject:
  assumes "hexlify x = hexlify y"
  shows "x = y"
proof -
  have "Inr x = getBytes (hexlify x)" by (simp only: getBytes_hexlify)
  also have "\<dots> = getBytes (hexlify y)" by (simp only: assms)
  also have "\<dots> = Inr y" by (rule getBytes_hexlify)
  finally show ?thesis by simp
qed

lemma u8a_set_length: "u8a_set t src off = Inr t' \<Longrightarrow> length t' = length t"
  by (auto simp: u8a_set_def split: if_splits)

lemma signatureBytes_of_Inr:
  assumes "signatureBytes_of sg = Inr sb"
  shows "length sb = 65 \<and> sb ! 64 = (if sig_v sg = 27 then 0 else 1)
         \<and> (\<exists>rBytes sBytes. getBytes (sig_r sg) = Inr rBytes \<and> getBytes (sig_s sg) = Inr sBytes
               \<and> (length rBytes = 32 \<and> length sBytes = 32
                    \<longrightarrow> sb = rBytes @ sBytes @ [if sig_v sg = 27 then 0 else 1]))"
proof -
  from assms obtain rBytes b1 sBytes b2 where
    r: "getBytes (sig_r sg) = Inr rBytes" and
    b1: "u8a_set (replicate 65 0) rBytes 0 = Inr b1" and
    s: "getBytes (sig_s sg) = Inr sBytes" and
    b2: "u8a_set b1 sBytes 32 = Inr b2" and
    sb: "sb = b2[64 := (if sig_v sg = 27 then 0 else 1)]"
    by (auto simp: signatureBytes_of_def Let_def split: sum.splits)
  have len: "length b2 = 65"
    using u8a_set_length [OF b1] u8a_set_length [OF b2] by simp
  have "sb = rBytes @ sBytes @ [if sig_v sg = 27 then 0 else 1]"
    if "length rBytes = 32" "length sBytes = 32"
  proof -
    have "b1 = rBytes @ replicate 33 0"
      using b1 that by (simp add: u8a_set_def)
    then have "b2 = rBytes @ sBytes @ [0]"
      using b2 that by (simp add: u8a_set_def)
    then show ?thesis
      using that by (simp add: sb list_update_append)
  qed
  then show ?thesis
    using len r s by (simp add: sb)
qed

lemma signatureBytes_of_32:
  assumes "getBytes (sig_r sg) = Inr rBytes" and "getBytes (sig_s sg) = Inr sBytes"
    and "length rBytes = 32" and "length sBytes = 32"
  shows "signatureBytes_of sg = Inr (rBytes @ sBytes @ [if sig_v sg = 27 then 0 else 1])"
  using assms by (simp add: signatureBytes_of_def Let_def u8a_set_def list_update_append)

lemma length_toAsciiHex: "length (toAsciiHex d) = 2 * length d"
  by (simp only: toAsciiHex_eq length_hexPairs)

lemma createEthereumSignableMessage_claim:
  "createEthereumSignableMessage (toAsciiHex account) None = Inr (claimMessage account)"
  by (simp add: createEthereumSignableMessage_eq claimMessage_def length_prefix length_toAsciiHex)

lemma generateClaimSignature_unfold:
  "generateClaimSignature L k a =
     (case Wallet L k of
        Inl err \<Rightarrow> ([WalletCreated k], Threw err)
      | Inr w \<Rightarrow>
         (case ApiPromise_create L of
            Threw err \<Rightarrow> ([WalletCreated k, ApiConnect], Threw err)
          | Pending \<Rightarrow> ([WalletCreated k, ApiConnect], Pending)
          | Returned api \<Rightarrow>
             (let m = claimMessage (destAccount (decodeAddress L) a);
                  d = keccak256 L m;
                  evs = [WalletCreated k, ApiConnect, Keccak256 m, SigningKeyCreated (privateKey w)]
              in case SigningKey L (privateKey w) of
                   Inl err \<Rightarrow> (evs, Threw err)
                 | Inr sk \<Rightarrow>
                    (case sign L sk d of
                       Inl err \<Rightarrow> (evs @ [Signed sk d], Threw err)
                     | Inr sg \<Rightarrow>
                        (case signatureBytes_of sg of
                           Inl err \<Rightarrow> (evs @ [Signed sk d], Threw err)
                         | Inr sb \<Rightarrow>
                            (evs @ [Signed sk d],
                             Returned \<lparr>signature = hexlify sb, ethereumAddress = address w\<rparr>))))))"
  by (simp add: generateClaimSignature_def bind_run_def call_def await_def step_def ret_def
      Let_def createEthereumSignableMessage_claim getBytes_hexlify
      split: sum.splits outcome.splits)


lemma length_demoKey: "length demoKey = 66"
  by (simp add: demoKey_def js_def)

lemma destAccount_42: "destAccount rejectAddress (SNum 42) = encodeU64 (Num 42)"
  by (simp add: destAccount_def decimalDigits.simps parseInt_def js_def
      isStrWhiteSpaceChar_def isRadixDigit_def hexDigitValue_def radixValue_def
      radixDigitValue_def numberOfInt_def roundToDouble_def)

lemma length_demoDigest: "length demoDigest = 32"
  by (simp add: demoDigest_def)

lemma demoSign_32:
  assumes "length d = 32"
  shows "demoSign n key d = Inr \<lparr>sig_r = hexlify d, sig_s = hexlify (rev d), sig_v = 27 + n mod 2\<rparr>"
    and "signatureBytes_of \<lparr>sig_r = hexlify d, sig_s = hexlify (rev d), sig_v = 27 + n mod 2\<rparr>
           = Inr (d @ rev d @ [if n mod 2 = 0 then 0 else 1])"
  using assms by (simp_all add: demoSign_def signatureBytes_of_32 getBytes_hexlify)

lemma demoLibraries_fields:
  "Wallet demoLibraries demoKey = Inr \<lparr>address = demoAddress, privateKey = demoKey\<rparr>"
  "decodeAddress demoLibraries = rejectAddress"
  "keccak256 demoLibraries demoMessage = demoDigest"
  "SigningKey demoLibraries demoKey = Inr demoKey"
  "sign demoLibraries = demoSign 1"
  by (simp_all add: demoLibraries_def length_demoKey demoDigest_def)

lemma demoMessage_account:
  "claimMessage (destAccount rejectAddress (SNum 42)) = demoMessage"
  by (simp add: demoMessage_def destAccount_42)

lemma demo_run:
  "generateClaimSignature demoLibraries demoKey (SNum 42) =
     ([WalletCreated demoKey, ApiConnect, Keccak256 demoMessage, SigningKeyCreated demoKey,
       Signed demoKey demoDigest],
      Returned \<lparr>signature = hexlify (demoDigest @ rev demoDigest @ [1]),
                ethereumAddress = demoAddress\<rparr>)"
proof -
  have "ApiPromise_create demoLibraries = Returned 0"
    by (simp add: demoLibraries_def)
  then show ?thesis
    using demoSign_32(1) [OF length_demoDigest, of 1 demoKey]
      demoSign_32(2) [OF length_demoDigest, of 1]
    by (simp add: generateClaimSignature_unfold demoLibraries_fields demoMessage_account)
qed



lemma generateClaimSignature_Returned:
  assumes "generateClaimSignature L k a = (evs, Returned res)"
  shows "\<exists>w sk sg sb.
           Wallet L k = Inr w \<and> (\<exists>api. ApiPromise_create L = Returned api)
           \<and> SigningKey L (privateKey w) = Inr sk
           \<and> sign L sk (keccak256 L (claimMessage (destAccount (decodeAddress L) a))) = Inr sg
           \<and> signatureBytes_of sg = Inr sb
           \<and> evs = [WalletCreated k, ApiConnect,
                     Keccak256 (claimMessage (destAccount (decodeAddress L) a)),
                     SigningKeyCreated (privateKey w),
                     Signed sk (keccak256 L (claimMessage (destAccount (decodeAddress L) a)))]
           \<and> res = \<lparr>signature = hexlify sb, ethereumAddress = address w\<rparr>"
proof (cases "Wallet L k")
  case (Inl err)
  with assms show ?thesis by (simp add: generateClaimSignature_unfold Let_def)
next
  case w: (Inr w)
  show ?thesis
  proof (cases "ApiPromise_create L")
    case Pending
    with assms w show ?thesis by (simp add: generateClaimSignature_unfold Let_def)
  next
    case (Threw err)
    with assms w show ?thesis by (simp add: generateClaimSignature_unfold Let_def)
  next
    case api: (Returned u)
    show ?thesis
    proof (cases "SigningKey L (privateKey w)")
      case (Inl err)
      with assms w api show ?thesis by (simp add: generateClaimSignature_unfold Let_def)
    next
      case sk: (Inr sk)
      show ?thesis
      proof (cases "sign L sk (keccak256 L (claimMessage (destAccount (decodeAddress L) a)))")
        case (Inl err)
        with assms w api sk show ?thesis by (simp add: generateClaimSignature_unfold Let_def)
      next
        case sg: (Inr sg)
        show ?thesis
        proof (cases "signatureBytes_of sg")
          case (Inl err)
          with assms w api sk sg show ?thesis by (simp add: generateClaimSignature_unfold Let_def)
        next
          case (Inr sb)
          with assms w api sk sg show ?thesis
            by (auto simp: generateClaimSignature_unfold Let_def)
        qed
      qed
    qed
  qed
qed

text \<open>
  Claim C5. The message is hashed exactly once, by the library's Keccak-256
  (\<open>ethers.keccak256\<close>, the parameter \<open>keccak256\<close>), and the digest goes unmodified to
  the signing primitive. Whenever the wallet accepts the key, the connection is
  established and the signing key is created, the calls of the run are exactly: the
  wallet, the connection, one \<open>keccak256\<close> of the signable message, the signing key, and
  one \<open>sign\<close> whose argument is that digest. In every run at most the signable message is
  hashed, once; a call of \<open>sign\<close> comes with that one hashing and has its digest as
  argument, so nothing is hashed again and nothing wraps the digest; and every run that
  returns has made that call.
\<close>

theorem hashed_once_then_signed:
  "(\<forall>w api sk. Wallet L k = Inr w \<and> ApiPromise_create L = Returned api
        \<and> SigningKey L (privateKey w) = Inr sk \<longrightarrow>
      fst (generateClaimSignature L k a) =
        [WalletCreated k, ApiConnect, Keccak256 (claimMessage (destAccount (decodeAddress L) a)),
         SigningKeyCreated (privateKey w), Signed sk (keccak256 L (claimMessage (destAccount (decodeAddress L) a)))])
   \<and> (hashCalls (fst (generateClaimSignature L k a)) = []
        \<or> hashCalls (fst (generateClaimSignature L k a)) = [claimMessage (destAccount (decodeAddress L) a)])
   \<and> (signCalls (fst (generateClaimSignature L k a)) = []
        \<or> (\<exists>sk. hashCalls (fst (generateClaimSignature L k a)) = [claimMessage (destAccount (decodeAddress L) a)]
                \<and> signCalls (fst (generateClaimSignature L k a)) = [(sk, keccak256 L (claimMessage (destAccount (decodeAddress L) a)))]))
   \<and> (\<forall>res. snd (generateClaimSignature L k a) = Returned res \<longrightarrow>
         (\<exists>sk. signCalls (fst (generateClaimSignature L k a)) = [(sk, keccak256 L (claimMessage (destAccount (decodeAddress L) a)))]))"
  by (auto simp: generateClaimSignature_unfold Let_def split: sum.splits outcome.splits)

theorem hashed_once_then_signed_witness:
  "fst (generateClaimSignature demoLibraries demoKey (SNum 42)) =
     [WalletCreated demoKey, ApiConnect, Keccak256 demoMessage, SigningKeyCreated demoKey,
      Signed demoKey (keccak256 demoLibraries demoMessage)]
   \<and> hashCalls (fst (generateClaimSignature demoLibraries demoKey (SNum 42))) = [demoMessage]
   \<and> signCalls (fst (generateClaimSignature demoLibraries demoKey (SNum 42)))
       = [(demoKey, keccak256 demoLibraries demoMessage)]
   \<and> succeeded (snd (generateClaimSignature demoLibraries demoKey (SNum 42)))"
proof -
  have api: "ApiPromise_create demoLibraries = Returned 0"
    by (simp add: demoLibraries_def)
  have "fst (generateClaimSignature demoLibraries demoKey (SNum 42)) =
     [WalletCreated demoKey, ApiConnect, Keccak256 demoMessage, SigningKeyCreated demoKey,
      Signed demoKey (keccak256 demoLibraries demoMessage)]"
    using hashed_once_then_signed [of demoLibraries demoKey "SNum 42"] api
    by (simp add: demoLibraries_fields demoMessage_account)
  moreover have "succeeded (snd (generateClaimSignature demoLibraries demoKey (SNum 42)))"
    by (simp add: demo_run succeeded_def)
  ultimately show ?thesis by simp
qed

text \<open>
  Claim C6. Every signature that is returned is the hex text of exactly 65 bytes: the
  bytes of \<open>r\<close>, the bytes of \<open>s\<close> and one recovery byte, when \<open>r\<close> and \<open>s\<close> are 32 bytes
  each as the library gives them. The recovery byte is 0 or 1: 0 when the library's \<open>v\<close>
  is 27, and 1 when it is 28.
\<close>

theorem signature_bytes_layout:
  assumes "generateClaimSignature L k a = (evs, Returned res)"
  shows "\<exists>sk d sg sb rBytes sBytes.
           Signed sk d \<in> set evs \<and> sign L sk d = Inr sg
           \<and> getBytes (sig_r sg) = Inr rBytes \<and> getBytes (sig_s sg) = Inr sBytes
           \<and> signature res = hexlify sb \<and> getBytes (signature res) = Inr sb
           \<and> length sb = 65 \<and> sb ! 64 \<in> {0, 1}
           \<and> (sig_v sg = 27 \<longrightarrow> sb ! 64 = 0) \<and> (sig_v sg = 28 \<longrightarrow> sb ! 64 = 1)
           \<and> (length rBytes = 32 \<and> length sBytes = 32 \<longrightarrow> sb = rBytes @ sBytes @ [sb ! 64])"
proof -
  from generateClaimSignature_Returned [OF assms] obtain w :: wallet and sk sg sb where
    sg: "sign L sk (keccak256 L (claimMessage (destAccount (decodeAddress L) a))) = Inr sg"
    and sb: "signatureBytes_of sg = Inr sb"
    and ev: "Signed sk (keccak256 L (claimMessage (destAccount (decodeAddress L) a))) \<in> set evs"
    and res: "res = \<lparr>signature = hexlify sb, ethereumAddress = address w\<rparr>"
    by auto
  from signatureBytes_of_Inr [OF sb] obtain rBytes sBytes where
    len: "length sb = 65" and v: "sb ! 64 = (if sig_v sg = 27 then 0 else 1)"
    and r: "getBytes (sig_r sg) = Inr rBytes" and s: "getBytes (sig_s sg) = Inr sBytes"
    and lay: "length rBytes = 32 \<and> length sBytes = 32
                \<longrightarrow> sb = rBytes @ sBytes @ [if sig_v sg = 27 then 0 else 1]"
    by blast
  have lay': "length rBytes = 32 \<and> length sBytes = 32 \<longrightarrow> sb = rBytes @ sBytes @ [sb ! 64]"
    using lay by (simp only: v [symmetric])
  have c1: "sb ! 64 \<in> {0, 1}" using v by simp
  have c2: "sig_v sg = 27 \<longrightarrow> sb ! 64 = 0" using v by simp
  have c3: "sig_v sg = 28 \<longrightarrow> sb ! 64 = 1" using v by simp
  have c4: "signature res = hexlify sb" using res by simp
  have c5: "getBytes (signature res) = Inr sb" using res by (simp add: getBytes_hexlify)
  show ?thesis
    using ev sg r s c4 c5 len c1 c2 c3 lay' by blast
qed

theorem signature_bytes_layout_witness:
  "succeeded (snd (generateClaimSignature demoLibraries demoKey (SNum 42)))
   \<and> length (demoDigest @ rev demoDigest @ [1]) = 65
   \<and> (demoDigest @ rev demoDigest @ [1]) ! 64 \<in> {0, 1}"
proof -
  from signature_bytes_layout [OF demo_run] obtain sb where
    "hexlify (demoDigest @ rev demoDigest @ [1]) = hexlify sb"
    "length sb = 65" "sb ! 64 \<in> {0, 1}"
    by auto
  moreover from this(1) have "sb = demoDigest @ rev demoDigest @ [1]"
    by (rule hexlify_inject [symmetric])
  ultimately show ?thesis
    by (simp add: demo_run succeeded_def)
qed


lemma demo_run_sign_fails:
  "generateClaimSignature (demoLibraries\<lparr>sign := \<lambda>key digest. Inl (External 3)\<rparr>) demoKey (SNum 42) =
     ([WalletCreated demoKey, ApiConnect, Keccak256 demoMessage, SigningKeyCreated demoKey,
       Signed demoKey demoDigest],
      Threw (External 3))"
proof -
  have "ApiPromise_create demoLibraries = Returned 0"
    by (simp add: demoLibraries_def)
  then show ?thesis
    by (simp add: generateClaimSignature_unfold demoLibraries_fields demoMessage_account)
qed









section \<open>Properties of submitSignature\<close>

lemma lowByte_HexCharacters:
  assumes "n < 16"
  shows "lowByte (HexCharacters ! n) = HexCharacters ! n"
  using nibble_cases [OF assms]
  by (elim insertE emptyE) (simp_all add: HexCharacters_list lowByte_def)

lemma hex_decode_hexlify_digits:
  assumes "length rest \<le> 1"
  shows "hex_decode (hexlify_digits d @ rest) = d"
proof (induction d)
  case Nil
  from assms show ?case by (cases rest) simp_all
next
  case (Cons v d)
  have hi: "unat v div 16 < 16"
    using unsigned_less [of v, where 'a = nat] by (simp add: less_mult_imp_div_less)
  have lo: "unat v mod 16 < 16" by simp
  have "(of_nat (16 * (unat v div 16) + unat v mod 16) :: 8 word) = v" by simp
  then show ?case
    using Cons HexCharacters_digit [OF hi] HexCharacters_digit [OF lo]
    by (simp add: hexlify_digits_Cons lowByte_HexCharacters [OF hi] lowByte_HexCharacters [OF lo]
        del: hexlify_digits.simps of_nat_add of_nat_mult)
qed

lemma hex_decode_low_byte:
  "hex_decode [0x0130, 0x0137] = [0x07]"
  by (simp add: lowByte_def isRadixDigit_def radixDigitValue_def hexDigitValue_def)

lemma signatureBytes_arg_hexlify:
  assumes "length rest \<le> 1"
  shows "signatureBytes_arg (SigString (hexlify d @ rest)) = Inr d"
  using hex_decode_hexlify_digits [OF assms, of d]
  by (simp add: signatureBytes_arg_def hexlify_def js_def)

lemma submitSignature_wrong_length:
  assumes "signatureBytes_arg sg = Inr b" and "length b \<noteq> 65"
  shows "submitSignature api w dest sg = ([], Threw (InvalidSignatureLength (length b)))"
  using assms by (simp add: submitSignature_def bind_run_def step_def)

lemma submitSignature_other:
  "submitSignature api w dest SigOther = ([], Threw SignatureNotStringOrBytes)"
  by (simp add: submitSignature_def bind_run_def step_def signatureBytes_arg_def)

lemma submitSignature_bytes_64_66:
  assumes "length b = 64 \<or> length b = 66"
  shows "submitSignature api w dest (SigBytes b) = ([], Threw (InvalidSignatureLength (length b)))"
  using assms by (intro submitSignature_wrong_length) (auto simp: signatureBytes_arg_def)

lemma accountBytes_42: "accountBytes_loop 0 42 (replicate 32 0) = 42 # replicate 31 0"
  by (simp add: eval_nat_numeral)

text \<open>
  Claim C7. A signature that does not decode to exactly 65 bytes makes \<open>submitSignature\<close>
  throw before anything is submitted, and a signature is never truncated or padded. That
  holds for byte arrays and for hex strings that decode to another number of bytes
  (\<open>submitSignature_wrong_length\<close>). It fails for a hex string of 65 bytes followed
  by one more hex digit, which does not decode to whole bytes: the last digit is dropped,
  the length check passes, and the claim is sent with the first 65 bytes.
\<close>

theorem truncated_hex_signature_is_submitted:
  "length (hexlify (replicate 65 7) @ js ''f'') = 2 + (2 * 65 + 1)
   \<and> signatureBytes_arg (SigString (hexlify (replicate 65 7) @ js ''f'')) = Inr (replicate 65 7)
   \<and> submitSignature demoChain demoAddress (SNum 42)
         (SigString (hexlify (replicate 65 7) @ js ''f''))
       = ([AddressEncoded (42 # replicate 31 0),
           ClaimSent (42 # replicate 31 0) (replicate 65 7),
           FinalityAwaited (js ''0x01''),
           AccountQueried (42 # replicate 31 0)],
          Returned (js ''0x01''))"
proof -
  have len: "length (js ''f'') \<le> 1" by (simp add: js_def)
  have "length (hexlify_digits d) = 2 * length d" for d
    by (induction d) simp_all
  then have "length (hexlify (replicate 65 7) @ js ''f'') = 2 + (2 * 65 + 1)"
    by (simp add: hexlify_def js_def)
  moreover note signatureBytes_arg_hexlify [OF len, of "replicate 65 7"]
  ultimately show ?thesis
    by (simp add: submitSignature_def bind_run_def step_def call_def await_def ret_def
        demoChain_def Let_def accountBytes_42 del: accountBytes_loop.simps)
qed

end
